theory Spec2Isabelle
  imports Main
begin

section \<open>The ChessWiz practice session\<close>

text \<open>
  The repository holds two copies of the \<open>ChessWiz\<close> React component. Both keep the
  practice session in \<open>useState\<close> cells and change it in event handlers:
  \<^item> variant A is \<^verbatim>\<open>src/unnamed/part_002\<close> (it tracks \<open>lastFenIndex\<close>);
  \<^item> variant B is \<^verbatim>\<open>src/unnamed/part_003\<close> (it has no \<open>lastFenIndex\<close>).
  Each handler is a function from the state of the latest render to the state after the
  handler's setters are applied; the \<open>chess.js\<close> object \<open>game\<close>, which the handlers
  mutate in place, is a field of that state. The setters of one handler call are applied
  together and the component renders once after it (\<^verbatim>\<open>src/frontend/src/main.jsx\<close>
  mounts the component with \<open>createRoot\<close>, which batches them, also after an
  \<open>await\<close>). A definition ending in \<open>_A\<close>
  embeds the function of that name in variant A, one ending in \<open>_B\<close> the one in
  variant B. The drop handler of variant B is the one handler that need not be of the
  latest render: see \<open>dropListener_B\<close>.
\<close>

subsection \<open>The chess.js object\<close>

text \<open>
  \<open>chess.js\<close> is an external library. The handlers use \<open>fen\<close>, \<open>move\<close>, \<open>undo\<close>,
  \<open>reset\<close> and \<open>load\<close> only. The object is modelled as the position \<open>fen()\<close> prints
  together with the undo stack; the rules of chess are a parameter:
  \<^item> \<open>legal_drop p from to\<close> is what \<open>move({from, to, promotion: "q"})\<close> answers in
    position \<open>p\<close>: \<open>None\<close> for \<open>null\<close>, else the SAN and the new position;
  \<^item> \<open>legal_san p san\<close> is the same for \<open>move(san)\<close>;
  \<^item> \<open>valid_fen f\<close> says whether \<open>load(f)\<close> accepts \<open>f\<close>.
  The handlers test the result of \<open>move\<close> against \<open>null\<close>, so \<open>move\<close> is modelled as
  returning \<open>null\<close> on an illegal move and leaving the object as it was; \<open>load\<close> of a
  string that is no FEN leaves the object as it was; \<open>load\<close> and \<open>reset\<close> empty the
  undo stack; \<open>undo\<close> on an empty stack does nothing.
\<close>

record rules =
  legal_drop :: "string \<Rightarrow> string \<Rightarrow> string \<Rightarrow> (string \<times> string) option"
  legal_san :: "string \<Rightarrow> string \<Rightarrow> (string \<times> string) option"
  valid_fen :: "string \<Rightarrow> bool"

record chess =
  position :: string
  history :: "string list"

definition DEFAULT_POSITION :: string where
  "DEFAULT_POSITION = ''rnbqkbnr/pppppppp/8/8/8/8/PPPPPPPP/RNBQKBNR w KQkq - 0 1''"

definition new_Chess :: chess where
  "new_Chess = \<lparr>position = DEFAULT_POSITION, history = []\<rparr>"

definition fen :: "chess \<Rightarrow> string" where
  "fen g = position g"

definition move_squares :: "rules \<Rightarrow> chess \<Rightarrow> string \<Rightarrow> string \<Rightarrow> (string \<times> chess) option" where
  "move_squares R g source target =
     (case legal_drop R (position g) source target of
        None \<Rightarrow> None
      | Some (san, p) \<Rightarrow> Some (san, \<lparr>position = p, history = position g # history g\<rparr>))"

definition move_san :: "rules \<Rightarrow> chess \<Rightarrow> string \<Rightarrow> (string \<times> chess) option" where
  "move_san R g m =
     (case legal_san R (position g) m of
        None \<Rightarrow> None
      | Some (san, p) \<Rightarrow> Some (san, \<lparr>position = p, history = position g # history g\<rparr>))"

definition undo :: "chess \<Rightarrow> chess" where
  "undo g = (case history g of [] \<Rightarrow> g | p # h \<Rightarrow> \<lparr>position = p, history = h\<rparr>)"

definition reset :: "chess \<Rightarrow> chess" where
  "reset g = \<lparr>position = DEFAULT_POSITION, history = []\<rparr>"

definition load :: "rules \<Rightarrow> chess \<Rightarrow> string \<Rightarrow> chess" where
  "load R g f = (if valid_fen R f then \<lparr>position = f, history = []\<rparr> else g)"

subsection \<open>JavaScript helpers\<close>

text \<open>
  \<open>String.prototype.toLowerCase\<close> on the ASCII letters (SAN is ASCII), and array
  indexing, which answers \<open>undefined\<close> (here \<open>None\<close>) outside the array.
\<close>

definition lower_char :: "char \<Rightarrow> char" where
  "lower_char c =
     (case map_of (zip ''ABCDEFGHIJKLMNOPQRSTUVWXYZ'' ''abcdefghijklmnopqrstuvwxyz'') c of
        None \<Rightarrow> c
      | Some l \<Rightarrow> l)"

definition toLowerCase :: "string \<Rightarrow> string" where
  "toLowerCase s = map lower_char s"

definition at_index :: "'a list \<Rightarrow> int \<Rightarrow> 'a option" where
  "at_index xs i = (if 0 \<le> i \<and> i < int (length xs) then Some (xs ! nat i) else None)"

subsection \<open>The component state\<close>

record opening_detail =
  openingName :: string
  ecoCode :: string
  description :: string
  strategicIdeas :: string

text \<open>The \<open>useState\<close> cells of variant B; variant A has \<open>lastFenIndex\<close> in addition.\<close>

record session =
  game :: chess
  currentOpeningId :: "string option"
  currentVariationName :: "string option"
  currentMoves :: "string list"
  currentIndex :: int
  feedback :: string
  wrongMove :: bool
  lastFen :: string
  boardPosition :: string
  selectedOpening :: "opening_detail option"

record session_A = session +
  lastFenIndex :: int

text \<open>
  What a drop handler tells the board: \<open>Snapback\<close> when it called
  \<open>setAction("snapback")\<close>, \<open>Accept\<close> when it did not (the board keeps the piece where
  it was dropped).
\<close>

datatype action = Accept | Snapback

text \<open>The initial values of the \<open>useState\<close> cells.\<close>

definition initial_B :: session where
  "initial_B = \<lparr>game = new_Chess, currentOpeningId = None, currentVariationName = None,
     currentMoves = [], currentIndex = 0, feedback = [], wrongMove = False,
     lastFen = ''start'', boardPosition = ''start'', selectedOpening = None\<rparr>"

definition initial_A :: session_A where
  "initial_A = \<lparr>game = new_Chess, currentOpeningId = None, currentVariationName = None,
     currentMoves = [], currentIndex = 0, feedback = [], wrongMove = False,
     lastFen = ''start'', boardPosition = ''start'', selectedOpening = None,
     lastFenIndex = 0\<rparr>"

subsection \<open>Variant A: the handlers of part 002\<close>

definition handlePieceDrop_A :: "rules \<Rightarrow> string \<Rightarrow> string \<Rightarrow> session_A \<Rightarrow> action \<times> session_A" where
  "handlePieceDrop_A R source target s =
     (if length (currentMoves s) = 0 then
        (case move_squares R (game s) source target of
           None \<Rightarrow> (Snapback, s\<lparr>feedback := ''Illegal move (freeplay).''\<rparr>)
         | Some (san, g) \<Rightarrow>
             (Accept, s\<lparr>game := g, boardPosition := fen g,
                        feedback := ''Freeplay move recorded.''\<rparr>))
      else if currentIndex s \<ge> int (length (currentMoves s)) then
        (Snapback, s\<lparr>feedback := ''No more moves in this variation.''\<rparr>)
      else
        (let beforeFen = fen (game s) in
         case move_squares R (game s) source target of
           None \<Rightarrow> (Snapback, s\<lparr>feedback := ''Illegal move!''\<rparr>)
         | Some (san, g) \<Rightarrow>
             (let userMove = toLowerCase san;
                  correctNext = map_option toLowerCase (at_index (currentMoves s) (currentIndex s))
              in if Some userMove = correctNext then
                   (Accept, s\<lparr>game := g, feedback := ''Good job! Move: '' @ userMove,
                              wrongMove := False, boardPosition := fen g, lastFen := fen g,
                              lastFenIndex := currentIndex s + 1,
                              currentIndex := currentIndex s + 1\<rparr>)
                 else
                   (Snapback, s\<lparr>game := load R g beforeFen, boardPosition := beforeFen,
                                feedback := ''Wrong move!'', wrongMove := True\<rparr>))))"

text \<open>
  \<open>startVariationPractice\<close> is asynchronous. Its body up to the \<open>await\<close> is
  \<open>startVariationPractice_A\<close>; what it does when the fetch settles is
  \<open>variationFetched_A\<close>, a function of the outcome of the fetch.
\<close>

datatype payload = MoveArray "string list" | NotArray

datatype fetched = Rejected | HttpError | Body payload

definition startVariationPractice_A :: "string \<Rightarrow> string \<Rightarrow> session_A \<Rightarrow> session_A" where
  "startVariationPractice_A openingId variationName s =
     s\<lparr>feedback := ''Loading moves for '' @ variationName @ ''...'',
       currentOpeningId := Some openingId, currentVariationName := Some variationName,
       currentMoves := [], currentIndex := 0, wrongMove := False,
       lastFen := ''start'', lastFenIndex := 0,
       game := reset (game s), boardPosition := ''start''\<rparr>"

definition variationFetched_A :: "fetched \<Rightarrow> session_A \<Rightarrow> session_A" where
  "variationFetched_A r s =
     (case r of
        Rejected \<Rightarrow> s\<lparr>feedback := ''Error fetching variation data.''\<rparr>
      | HttpError \<Rightarrow> s\<lparr>feedback := ''Error loading variation moves.''\<rparr>
      | Body NotArray \<Rightarrow> s\<lparr>feedback := ''Invalid variation data.''\<rparr>
      | Body (MoveArray movesData) \<Rightarrow>
          s\<lparr>currentMoves := movesData, feedback := ''Variation loaded. Make the first move!''\<rparr>)"

definition handlePrevMove_A :: "session_A \<Rightarrow> session_A" where
  "handlePrevMove_A s =
     (if length (currentMoves s) = 0 then s\<lparr>feedback := ''No moves to step back.''\<rparr>
      else if currentIndex s \<le> 0 then s\<lparr>feedback := ''Already at the first move!''\<rparr>
      else (let g = undo (game s) in
            s\<lparr>game := g, boardPosition := fen g, currentIndex := currentIndex s - 1,
              feedback := ''Stepped back one move.''\<rparr>))"

text \<open>
  \<open>currentMoves[currentIndex]\<close> is \<open>undefined\<close> only for a negative index, and
  \<open>game.move(undefined)\<close> answers \<open>null\<close>.
\<close>

definition handleNextMove_A :: "rules \<Rightarrow> session_A \<Rightarrow> session_A" where
  "handleNextMove_A R s =
     (if length (currentMoves s) = 0 then s\<lparr>feedback := ''No moves to step forward.''\<rparr>
      else if currentIndex s \<ge> int (length (currentMoves s)) then
        s\<lparr>feedback := ''Already at the last move.''\<rparr>
      else
        (case at_index (currentMoves s) (currentIndex s) of
           None \<Rightarrow> s\<lparr>feedback := ''Invalid move sequence? Could not apply next move.''\<rparr>
         | Some nextMoveSAN \<Rightarrow>
             (case move_san R (game s) nextMoveSAN of
                None \<Rightarrow> s\<lparr>feedback := ''Invalid move sequence? Could not apply next move.''\<rparr>
              | Some (san, g) \<Rightarrow>
                  s\<lparr>game := g, boardPosition := fen g, currentIndex := currentIndex s + 1,
                    feedback := ''Forward move: '' @ nextMoveSAN\<rparr>)))"

definition handleResetToLastPosition_A :: "rules \<Rightarrow> session_A \<Rightarrow> session_A" where
  "handleResetToLastPosition_A R s =
     (if lastFenIndex s = 0 then
        s\<lparr>game := reset (game s), boardPosition := ''start'', currentIndex := 0,
          wrongMove := False,
          feedback := ''No correct move to reset to. Board reset to start.''\<rparr>
      else
        s\<lparr>game := load R (game s) (lastFen s), boardPosition := lastFen s,
          currentIndex := lastFenIndex s, wrongMove := False,
          feedback := ''Reset to last correct move.''\<rparr>)"

definition handleResetBoard_A :: "session_A \<Rightarrow> session_A" where
  "handleResetBoard_A s =
     (if length (currentMoves s) > 0 then
        s\<lparr>game := reset (game s), boardPosition := ''start'', lastFen := ''start'',
          lastFenIndex := 0, wrongMove := False, currentIndex := 0,
          feedback := ''Board reset for this variation. Move #1.''\<rparr>
      else
        s\<lparr>game := reset (game s), boardPosition := ''start'',
          feedback := ''Board reset in free-play mode.''\<rparr>)"

definition enterFreeplayMode_A :: "session_A \<Rightarrow> session_A" where
  "enterFreeplayMode_A s =
     s\<lparr>feedback := ''Switched to freeplay mode.'', currentOpeningId := None,
       currentVariationName := None, selectedOpening := None, currentMoves := [],
       currentIndex := 0, wrongMove := False, game := reset (game s),
       boardPosition := ''start'', lastFen := ''start'', lastFenIndex := 0\<rparr>"

subsection \<open>Variant B: the handlers of part 003\<close>


definition startVariationPractice_B :: "string \<Rightarrow> string \<Rightarrow> session \<Rightarrow> session" where
  "startVariationPractice_B openingId variationName s =
     s\<lparr>currentOpeningId := Some openingId, currentVariationName := Some variationName,
       currentIndex := 0, currentMoves := [], feedback := [], wrongMove := False,
       game := reset (game s), boardPosition := ''start'', lastFen := ''start''\<rparr>"

definition variationFetched_B :: "fetched \<Rightarrow> session \<Rightarrow> session" where
  "variationFetched_B r s =
     (case r of
        Rejected \<Rightarrow> s\<lparr>feedback := ''Error fetching variation data.''\<rparr>
      | HttpError \<Rightarrow> s\<lparr>feedback := ''Error loading variation moves.''\<rparr>
      | Body NotArray \<Rightarrow> s\<lparr>feedback := ''Invalid variation data.''\<rparr>
      | Body (MoveArray movesData) \<Rightarrow>
          s\<lparr>currentMoves := movesData, feedback := ''Variation loaded. Make the first move!''\<rparr>)"

text \<open>
  \<open>handlePieceDrop\<close> of variant B is a closure of the render that created it: it reads
  \<open>currentMoves\<close> and \<open>currentIndex\<close> of that render. The chess object and the setters
  are the same in every render, so the handler moves on the chess object of the latest
  state and its setters change the latest state. \<open>dropListener_B R c\<close> is the closure
  of the render with state \<open>c\<close>; \<open>handlePieceDrop_B\<close> is the closure of the latest
  render. In \<open>correctNext && userMove === correctNext\<close>, \<open>correctNext\<close> is falsy when
  it is \<open>undefined\<close> or the empty string.
\<close>

definition dropListener_B :: "rules \<Rightarrow> session \<Rightarrow> string \<Rightarrow> string \<Rightarrow> session \<Rightarrow> action \<times> session" where
  "dropListener_B R c source target s =
     (if length (currentMoves c) = 0 then
        (case move_squares R (game s) source target of
           None \<Rightarrow> (Snapback, s)
         | Some (san, g) \<Rightarrow> (Accept, s\<lparr>game := g, boardPosition := fen g\<rparr>))
      else
        (case move_squares R (game s) source target of
           None \<Rightarrow> (Snapback, s)
         | Some (san, g) \<Rightarrow>
             (let userMove = toLowerCase san;
                  correctNext = map_option toLowerCase (at_index (currentMoves c) (currentIndex c))
              in if correctNext \<noteq> None \<and> correctNext \<noteq> Some [] \<and> Some userMove = correctNext then
                   (Accept, s\<lparr>game := g, feedback := ''Good job! Move: '' @ userMove,
                              wrongMove := False, lastFen := fen g, boardPosition := fen g,
                              currentIndex := currentIndex c + 1\<rparr>)
                 else
                   (Snapback, s\<lparr>game := g, feedback := ''Wrong move!'', wrongMove := True\<rparr>))))"

definition handlePieceDrop_B :: "rules \<Rightarrow> string \<Rightarrow> string \<Rightarrow> session \<Rightarrow> action \<times> session" where
  "handlePieceDrop_B R source target s = dropListener_B R s source target s"

text \<open>
  The effect that attaches the drop listener runs after the first render and after every
  render in which \<open>currentOpeningId\<close>, \<open>currentVariationName\<close> or \<open>currentIndex\<close>
  differs from the render before; it then attaches the closure of that render. After a
  render from state \<open>prev\<close> to state \<open>new\<close>, with the closure of \<open>c\<close> attached
  before, the closure attached is that of \<open>effect_B prev new c\<close>.
\<close>

definition effect_B :: "session \<Rightarrow> session \<Rightarrow> session \<Rightarrow> session" where
  "effect_B prev new c =
     (if currentOpeningId new = currentOpeningId prev
         \<and> currentVariationName new = currentVariationName prev
         \<and> currentIndex new = currentIndex prev
      then c else new)"

definition handleResetToLastPosition_B :: "rules \<Rightarrow> session \<Rightarrow> session" where
  "handleResetToLastPosition_B R s =
     s\<lparr>game := load R (game s) (lastFen s), boardPosition := lastFen s,
       feedback := ''Reset to last correct move.'', wrongMove := False\<rparr>"

definition handleResetBoard_B :: "session \<Rightarrow> session" where
  "handleResetBoard_B s =
     (if length (currentMoves s) > 0 then
        s\<lparr>game := reset (game s), boardPosition := ''start'', lastFen := ''start'',
          wrongMove := False, currentIndex := 0,
          feedback := ''Board reset for this opening. Move #1.''\<rparr>
      else
        s\<lparr>game := reset (game s), boardPosition := ''start'',
          feedback := ''Board reset in free-play mode.''\<rparr>)"

definition enterFreeplayMode_B :: "session \<Rightarrow> session" where
  "enterFreeplayMode_B s =
     s\<lparr>feedback := ''Switched to freeplay mode.'', currentOpeningId := None,
       currentVariationName := None, selectedOpening := None, currentMoves := [],
       currentIndex := 0, wrongMove := False, lastFen := ''start'',
       game := reset (game s), boardPosition := ''start''\<rparr>"

text \<open>
  \<open>handleNextMove\<close> of variant B does not look at what \<open>game.move(move)\<close>
  answers: when the move is refused the object stays as it was and the handler goes on.
  \<open>move\<close> is \<open>undefined\<close> only for a negative index.
\<close>

definition handleNextMove_B :: "rules \<Rightarrow> session \<Rightarrow> session" where
  "handleNextMove_B R s =
     (if length (currentMoves s) = 0 then s
      else if currentIndex s < int (length (currentMoves s)) then
        (let m = at_index (currentMoves s) (currentIndex s);
             g = (case m of
                    None \<Rightarrow> game s
                  | Some san \<Rightarrow>
                      (case move_san R (game s) san of None \<Rightarrow> game s | Some (x, g') \<Rightarrow> g'))
         in s\<lparr>game := g, boardPosition := fen g, currentIndex := currentIndex s + 1,
              feedback := ''Forward move: '' @ (case m of None \<Rightarrow> ''undefined'' | Some san \<Rightarrow> san),
              wrongMove := False, lastFen := fen g\<rparr>)
      else s\<lparr>feedback := ''End of variation!''\<rparr>)"

definition handlePrevMove_B :: "session \<Rightarrow> session" where
  "handlePrevMove_B s =
     (if length (currentMoves s) = 0 then s
      else if currentIndex s \<le> 0 then s\<lparr>feedback := ''Already at the start!''\<rparr>
      else (let g = undo (game s) in
            s\<lparr>game := g, boardPosition := fen g, currentIndex := currentIndex s - 1,
              feedback := ''Stepped back one move.'', wrongMove := False, lastFen := fen g\<rparr>))"

subsection \<open>Random variation\<close>

text \<open>
  \<open>handleRandomVariation\<close> up to its \<open>await\<close>, and what it does when the fetch
  settles: on a body it calls \<open>startVariationPractice\<close>, which runs up to its own
  \<open>await\<close>.
\<close>

datatype random_fetched = RandomRejected | RandomHttpError | RandomBody string string

definition handleRandomVariation_A :: "session_A \<Rightarrow> session_A" where
  "handleRandomVariation_A s = s\<lparr>feedback := ''Loading random variation...''\<rparr>"

definition randomFetched_A :: "random_fetched \<Rightarrow> session_A \<Rightarrow> session_A" where
  "randomFetched_A r s =
     (case r of
        RandomRejected \<Rightarrow> s\<lparr>feedback := ''Error fetching random variation.''\<rparr>
      | RandomHttpError \<Rightarrow> s\<lparr>feedback := ''No openings found or error.''\<rparr>
      | RandomBody openingId variationName \<Rightarrow>
          startVariationPractice_A openingId variationName
            (s\<lparr>feedback := ''Random Variation: '' @ variationName\<rparr>))"

definition handleRandomVariation_B :: "session \<Rightarrow> session" where
  "handleRandomVariation_B s = s\<lparr>feedback := ''Loading random variation...''\<rparr>"

definition randomFetched_B :: "random_fetched \<Rightarrow> session \<Rightarrow> session" where
  "randomFetched_B r s =
     (case r of
        RandomRejected \<Rightarrow> s\<lparr>feedback := ''Error fetching random variation.''\<rparr>
      | RandomHttpError \<Rightarrow> s\<lparr>feedback := ''No openings found or error.''\<rparr>
      | RandomBody openingId variationName \<Rightarrow>
          startVariationPractice_B openingId variationName
            (s\<lparr>feedback := ''Opening: '' @ openingId @ '', Variation: '' @ variationName\<rparr>))"

subsection \<open>Runs of the component\<close>

text \<open>
  A run is a list of events: the user's gestures and the settling of fetches. Beside the
  component state, \<open>variationFetches\<close> counts the fetches of
  \<open>startVariationPractice\<close> in flight and \<open>randomFetches\<close> those of
  \<open>handleRandomVariation\<close>; a fetch can settle only while one is in flight. In variant
  B the state of a run also holds \<open>listener\<close>, the render whose drop closure is attached
  to the board, and a drop runs that closure. With the flag \<open>x\<close> set,
  \<open>startVariationPractice\<close> is not called while one of its fetches is in flight, and in
  variant B no drop is made while the attached closure holds a move list that is neither
  empty nor that of the latest state; without the flag, every event is possible, as in
  the component.
\<close>

datatype event =
    Drop string string
  | Prev
  | Next
  | ResetToLast
  | ResetBoard
  | Freeplay
  | Start string string
  | Fetched fetched
  | Random
  | RandomFetched random_fetched

record 's app =
  ui :: 's
  variationFetches :: nat
  randomFetches :: nat

definition may_start :: "bool \<Rightarrow> ('s, 'z) app_scheme \<Rightarrow> bool" where
  "may_start exclusive a = (if exclusive then variationFetches a = 0 else True)"

fun step_A :: "rules \<Rightarrow> bool \<Rightarrow> event \<Rightarrow> session_A app \<Rightarrow> session_A app option" where
  "step_A R x (Drop source target) a = Some (a\<lparr>ui := snd (handlePieceDrop_A R source target (ui a))\<rparr>)"
| "step_A R x Prev a = Some (a\<lparr>ui := handlePrevMove_A (ui a)\<rparr>)"
| "step_A R x Next a = Some (a\<lparr>ui := handleNextMove_A R (ui a)\<rparr>)"
| "step_A R x ResetToLast a = Some (a\<lparr>ui := handleResetToLastPosition_A R (ui a)\<rparr>)"
| "step_A R x ResetBoard a = Some (a\<lparr>ui := handleResetBoard_A (ui a)\<rparr>)"
| "step_A R x Freeplay a = Some (a\<lparr>ui := enterFreeplayMode_A (ui a)\<rparr>)"
| "step_A R x (Start openingId variationName) a =
     (if may_start x a
      then Some (a\<lparr>ui := startVariationPractice_A openingId variationName (ui a),
                    variationFetches := variationFetches a + 1\<rparr>)
      else None)"
| "step_A R x (Fetched r) a =
     (if variationFetches a = 0 then None
      else Some (a\<lparr>ui := variationFetched_A r (ui a),
                    variationFetches := variationFetches a - 1\<rparr>))"
| "step_A R x Random a =
     Some (a\<lparr>ui := handleRandomVariation_A (ui a), randomFetches := randomFetches a + 1\<rparr>)"
| "step_A R x (RandomFetched r) a =
     (if randomFetches a = 0 then None
      else (case r of
              RandomBody openingId variationName \<Rightarrow>
                (if may_start x a
                 then Some (a\<lparr>ui := randomFetched_A r (ui a),
                               variationFetches := variationFetches a + 1,
                               randomFetches := randomFetches a - 1\<rparr>)
                 else None)
            | _ \<Rightarrow> Some (a\<lparr>ui := randomFetched_A r (ui a),
                            randomFetches := randomFetches a - 1\<rparr>)))"

record app_B = "session app" +
  listener :: session

definition may_drop :: "bool \<Rightarrow> app_B \<Rightarrow> bool" where
  "may_drop x a =
     (if x then currentMoves (listener a) = currentMoves (ui a) \<or> currentMoves (listener a) = []
      else True)"

definition render_B :: "app_B \<Rightarrow> session \<Rightarrow> app_B" where
  "render_B a s = a\<lparr>ui := s, listener := effect_B (ui a) s (listener a)\<rparr>"

fun step_B :: "rules \<Rightarrow> bool \<Rightarrow> event \<Rightarrow> app_B \<Rightarrow> app_B option" where
  "step_B R x (Drop source target) a =
     (if may_drop x a
      then Some (render_B a (snd (dropListener_B R (listener a) source target (ui a))))
      else None)"
| "step_B R x Prev a = Some (render_B a (handlePrevMove_B (ui a)))"
| "step_B R x Next a = Some (render_B a (handleNextMove_B R (ui a)))"
| "step_B R x ResetToLast a = Some (render_B a (handleResetToLastPosition_B R (ui a)))"
| "step_B R x ResetBoard a = Some (render_B a (handleResetBoard_B (ui a)))"
| "step_B R x Freeplay a = Some (render_B a (enterFreeplayMode_B (ui a)))"
| "step_B R x (Start openingId variationName) a =
     (if may_start x a
      then Some ((render_B a (startVariationPractice_B openingId variationName (ui a)))
                   \<lparr>variationFetches := variationFetches a + 1\<rparr>)
      else None)"
| "step_B R x (Fetched r) a =
     (if variationFetches a = 0 then None
      else Some ((render_B a (variationFetched_B r (ui a)))
                   \<lparr>variationFetches := variationFetches a - 1\<rparr>))"
| "step_B R x Random a =
     Some ((render_B a (handleRandomVariation_B (ui a)))\<lparr>randomFetches := randomFetches a + 1\<rparr>)"
| "step_B R x (RandomFetched r) a =
     (if randomFetches a = 0 then None
      else (case r of
              RandomBody openingId variationName \<Rightarrow>
                (if may_start x a
                 then Some ((render_B a (randomFetched_B r (ui a)))
                              \<lparr>variationFetches := variationFetches a + 1,
                                randomFetches := randomFetches a - 1\<rparr>)
                 else None)
            | _ \<Rightarrow> Some ((render_B a (randomFetched_B r (ui a)))
                           \<lparr>randomFetches := randomFetches a - 1\<rparr>)))"

fun run :: "('e \<Rightarrow> 'a \<Rightarrow> 'a option) \<Rightarrow> 'e list \<Rightarrow> 'a \<Rightarrow> 'a option" where
  "run step [] a = Some a"
| "run step (e # es) a = (case step e a of None \<Rightarrow> None | Some a' \<Rightarrow> run step es a')"

definition mounted_A :: "session_A app" where
  "mounted_A = \<lparr>ui = initial_A, variationFetches = 0, randomFetches = 0\<rparr>"

definition mounted_B :: app_B where
  "mounted_B = \<lparr>ui = initial_B, variationFetches = 0, randomFetches = 0, listener = initial_B\<rparr>"

text \<open>The invariant of the progress index: \<open>0 \<le> currentIndex \<le> currentMoves.length\<close>.\<close>

definition index_in_range :: "'x session_scheme \<Rightarrow> bool" where
  "index_in_range s = (0 \<le> currentIndex s \<and> currentIndex s \<le> int (length (currentMoves s)))"

text \<open>The array a settled fetch hands to \<open>setCurrentMoves\<close>, if it does.\<close>

definition accepted_moves :: "fetched \<Rightarrow> string list option" where
  "accepted_moves r = (case r of Body (MoveArray movesData) \<Rightarrow> Some movesData | _ \<Rightarrow> None)"

subsection \<open>A fragment of the rules of chess\<close>

text \<open>
  The first moves of a game, as \<open>chess.js\<close> answers them: from the initial position
  the drops e2-e4 and d2-d4 (SAN \<open>e4\<close>, \<open>d4\<close>), and after 1. e4 the drops e7-e5 and
  c7-c5 (SAN \<open>e5\<close>, \<open>c5\<close>). The fragment is used at these moves, and at \<open>Ke2\<close>
  from the initial position, which no rule of chess allows; \<open>"start"\<close> is no FEN.
\<close>

definition fen_e4 :: string where
  "fen_e4 = ''rnbqkbnr/pppppppp/8/8/4P3/8/PPPP1PPP/RNBQKBNR b KQkq e3 0 1''"

definition fen_d4 :: string where
  "fen_d4 = ''rnbqkbnr/pppppppp/8/8/3P4/8/PPP1PPPP/RNBQKBNR b KQkq d3 0 1''"

definition fen_e4_e5 :: string where
  "fen_e4_e5 = ''rnbqkbnr/pppp1ppp/8/4p3/4P3/8/PPPP1PPP/RNBQKBNR w KQkq e6 0 2''"

definition fen_e4_c5 :: string where
  "fen_e4_c5 = ''rnbqkbnr/pp1ppppp/8/2p5/4P3/8/PPPP1PPP/RNBQKBNR w KQkq c6 0 2''"

definition first_moves :: rules where
  "first_moves =
     \<lparr>legal_drop = (\<lambda>p source target.
        if p = DEFAULT_POSITION \<and> source = ''e2'' \<and> target = ''e4'' then Some (''e4'', fen_e4)
        else if p = DEFAULT_POSITION \<and> source = ''d2'' \<and> target = ''d4'' then Some (''d4'', fen_d4)
        else if p = fen_e4 \<and> source = ''e7'' \<and> target = ''e5'' then Some (''e5'', fen_e4_e5)
        else if p = fen_e4 \<and> source = ''c7'' \<and> target = ''c5'' then Some (''c5'', fen_e4_c5)
        else None),
      legal_san = (\<lambda>p san.
        if p = DEFAULT_POSITION \<and> san = ''e4'' then Some (''e4'', fen_e4)
        else if p = DEFAULT_POSITION \<and> san = ''d4'' then Some (''d4'', fen_d4)
        else if p = fen_e4 \<and> san = ''e5'' then Some (''e5'', fen_e4_e5)
        else if p = fen_e4 \<and> san = ''c5'' then Some (''c5'', fen_e4_c5)
        else None),
      valid_fen = (\<lambda>f. f = DEFAULT_POSITION \<or> f = fen_e4 \<or> f = fen_d4 \<or> f = fen_e4_e5
                       \<or> f = fen_e4_c5)\<rparr>"

text \<open>
  States for evaluating the handlers: the variation 1. e4 e5 just loaded, in each
  variant, and the one-move variation 1. e4 just loaded in variant B.
\<close>

definition practising_A :: session_A where
  "practising_A = variationFetched_A (Body (MoveArray [''e4'', ''e5'']))
     (startVariationPractice_A ''2'' ''Open Game'' initial_A)"

definition practising_B :: session where
  "practising_B = variationFetched_B (Body (MoveArray [''e4'', ''e5'']))
     (startVariationPractice_B ''2'' ''Open Game'' initial_B)"

definition one_move_B :: session where
  "one_move_B = variationFetched_B (Body (MoveArray [''e4'']))
     (startVariationPractice_B ''2'' ''Open Game'' initial_B)"

text \<open>
  The invariants that carry the range of the index through a run: in variant A the
  index \<open>lastFenIndex\<close> stays in range too (the handler \<open>handleResetToLastPosition\<close>
  copies it into \<open>currentIndex\<close>), and while a fetch is in flight the move list is
  empty; in variant B the attached closure holds the index of the latest state.
\<close>

definition bounded_A :: "session_A \<Rightarrow> bool" where
  "bounded_A s = (index_in_range s \<and> 0 \<le> lastFenIndex s
                  \<and> lastFenIndex s \<le> int (length (currentMoves s)))"

definition settled_A :: "session_A app \<Rightarrow> bool" where
  "settled_A a = (bounded_A (ui a)
     \<and> (if variationFetches a = 0 then True
         else variationFetches a = 1 \<and> currentMoves (ui a) = []))"

definition settled_B :: "app_B \<Rightarrow> bool" where
  "settled_B a = (index_in_range (ui a)
     \<and> currentIndex (listener a) = currentIndex (ui a)
     \<and> (if variationFetches a = 0 then True
         else variationFetches a = 1 \<and> currentMoves (ui a) = []))"

text \<open>
  What \<open>chess.js\<close> guarantees of the strings it prints: \<open>load\<close> accepts the initial
  position and every position a legal move leads to from a position it accepts. A chess
  object is sound when \<open>load\<close> accepts its position and every position on its undo
  stack. Whenever the index that belongs to \<open>lastFen\<close> is not 0 (\<open>lastFenIndex\<close> in
  variant A, \<open>currentIndex\<close> in variant B), \<open>lastFen\<close> is such a string.
\<close>

definition fen_closed :: "rules \<Rightarrow> bool" where
  "fen_closed R =
     (valid_fen R DEFAULT_POSITION
      \<and> (\<forall>p source target san q.
            valid_fen R p \<and> legal_drop R p source target = Some (san, q) \<longrightarrow> valid_fen R q)
      \<and> (\<forall>p m san q.
            valid_fen R p \<and> legal_san R p m = Some (san, q) \<longrightarrow> valid_fen R q))"

definition sound :: "rules \<Rightarrow> chess \<Rightarrow> bool" where
  "sound R g = (valid_fen R (position g) \<and> list_all (valid_fen R) (history g))"

definition restorable_A :: "rules \<Rightarrow> session_A \<Rightarrow> bool" where
  "restorable_A R s =
     (sound R (game s) \<and> (if lastFenIndex s = 0 then True else valid_fen R (lastFen s)))"

definition restorable_B :: "rules \<Rightarrow> session \<Rightarrow> bool" where
  "restorable_B R s =
     (sound R (game s) \<and> (if currentIndex s = 0 then True else valid_fen R (lastFen s)))"



section \<open>Properties of the session operations\<close>

lemmas handlers_A = handlePieceDrop_A_def startVariationPractice_A_def variationFetched_A_def
  handlePrevMove_A_def handleNextMove_A_def handleResetToLastPosition_A_def handleResetBoard_A_def
  enterFreeplayMode_A_def handleRandomVariation_A_def randomFetched_A_def
lemmas handlers_B = handlePieceDrop_B_def dropListener_B_def startVariationPractice_B_def
  variationFetched_B_def
  handlePrevMove_B_def handleNextMove_B_def handleResetToLastPosition_B_def handleResetBoard_B_def
  enterFreeplayMode_B_def handleRandomVariation_B_def randomFetched_B_def
lemmas chess_defs = fen_def move_squares_def move_san_def undo_def reset_def load_def new_Chess_def
  DEFAULT_POSITION_def fen_e4_def fen_d4_def fen_e4_e5_def fen_e4_c5_def first_moves_def
lemmas js_defs = toLowerCase_def lower_char_def at_index_def
lemmas states = practising_A_def practising_B_def one_move_B_def
  initial_A_def initial_B_def

subsection \<open>Entering free play\<close>

text \<open>
  Claim C8. \<open>enterFreeplayMode\<close>, from any state, empties the move list, sets the
  progress index to 0, clears the wrong-move flag, unsets opening and variation, puts the
  last good position back to the start (and the last good index to 0 where the variant
  has one) and resets the chess object; calling it twice gives the same state as calling
  it once. Both variants.
\<close>

theorem enterFreeplayMode_resets_everything:
  "currentMoves (enterFreeplayMode_A s) = []
   \<and> currentIndex (enterFreeplayMode_A s) = 0
   \<and> wrongMove (enterFreeplayMode_A s) = False
   \<and> currentOpeningId (enterFreeplayMode_A s) = None
   \<and> currentVariationName (enterFreeplayMode_A s) = None
   \<and> lastFen (enterFreeplayMode_A s) = ''start''
   \<and> lastFenIndex (enterFreeplayMode_A s) = 0
   \<and> boardPosition (enterFreeplayMode_A s) = ''start''
   \<and> game (enterFreeplayMode_A s) = new_Chess
   \<and> enterFreeplayMode_A (enterFreeplayMode_A s) = enterFreeplayMode_A s
   \<and> currentMoves (enterFreeplayMode_B t) = []
   \<and> currentIndex (enterFreeplayMode_B t) = 0
   \<and> wrongMove (enterFreeplayMode_B t) = False
   \<and> currentOpeningId (enterFreeplayMode_B t) = None
   \<and> currentVariationName (enterFreeplayMode_B t) = None
   \<and> lastFen (enterFreeplayMode_B t) = ''start''
   \<and> boardPosition (enterFreeplayMode_B t) = ''start''
   \<and> game (enterFreeplayMode_B t) = new_Chess
   \<and> enterFreeplayMode_B (enterFreeplayMode_B t) = enterFreeplayMode_B t"
  by (simp add: enterFreeplayMode_A_def enterFreeplayMode_B_def reset_def new_Chess_def)

subsection \<open>Resetting the board\<close>

text \<open>
  Claim C10. With a variation loaded (the move list is not empty), \<open>handleResetBoard\<close>
  resets the progress (index, last good position and index, wrong-move flag, board and
  chess object) and leaves the opening id, the variation name and the move list as they
  were. Both variants.
\<close>

theorem handleResetBoard_keeps_variation:
  assumes "currentMoves s \<noteq> []" and "currentMoves t \<noteq> []"
  shows "currentOpeningId (handleResetBoard_A s) = currentOpeningId s
   \<and> currentVariationName (handleResetBoard_A s) = currentVariationName s
   \<and> currentMoves (handleResetBoard_A s) = currentMoves s
   \<and> currentIndex (handleResetBoard_A s) = 0
   \<and> lastFen (handleResetBoard_A s) = ''start''
   \<and> lastFenIndex (handleResetBoard_A s) = 0
   \<and> wrongMove (handleResetBoard_A s) = False
   \<and> boardPosition (handleResetBoard_A s) = ''start''
   \<and> game (handleResetBoard_A s) = new_Chess
   \<and> currentOpeningId (handleResetBoard_B t) = currentOpeningId t
   \<and> currentVariationName (handleResetBoard_B t) = currentVariationName t
   \<and> currentMoves (handleResetBoard_B t) = currentMoves t
   \<and> currentIndex (handleResetBoard_B t) = 0
   \<and> lastFen (handleResetBoard_B t) = ''start''
   \<and> wrongMove (handleResetBoard_B t) = False
   \<and> boardPosition (handleResetBoard_B t) = ''start''
   \<and> game (handleResetBoard_B t) = new_Chess"
  using assms by (simp add: handleResetBoard_A_def handleResetBoard_B_def reset_def new_Chess_def)

theorem handleResetBoard_keeps_variation_witness:
  "currentMoves (handleNextMove_A first_moves practising_A) \<noteq> []
   \<and> currentMoves (handleNextMove_B first_moves practising_B) \<noteq> []
   \<and> currentIndex (handleNextMove_A first_moves practising_A) = 1
   \<and> currentIndex (handleResetBoard_A (handleNextMove_A first_moves practising_A)) = 0
   \<and> currentMoves (handleResetBoard_A (handleNextMove_A first_moves practising_A)) = [''e4'', ''e5'']
   \<and> currentVariationName (handleResetBoard_A (handleNextMove_A first_moves practising_A)) = Some ''Open Game''
   \<and> currentIndex (handleNextMove_B first_moves practising_B) = 1
   \<and> currentIndex (handleResetBoard_B (handleNextMove_B first_moves practising_B)) = 0
   \<and> currentMoves (handleResetBoard_B (handleNextMove_B first_moves practising_B)) = [''e4'', ''e5'']
   \<and> currentVariationName (handleResetBoard_B (handleNextMove_B first_moves practising_B)) = Some ''Open Game''"
proof -
  have a: "currentMoves (handleNextMove_A first_moves practising_A) \<noteq> []"
    by (simp add: practising_A_def handlers_A initial_A_def chess_defs js_defs)
  have b: "currentMoves (handleNextMove_B first_moves practising_B) \<noteq> []"
    by (simp add: practising_B_def handlers_B initial_B_def chess_defs js_defs)
  show ?thesis
    using handleResetBoard_keeps_variation [OF a b] a b
    by (simp add: practising_A_def practising_B_def handleNextMove_A_def handleNextMove_B_def
        startVariationPractice_A_def startVariationPractice_B_def variationFetched_A_def
        variationFetched_B_def initial_A_def initial_B_def chess_defs js_defs)
qed


subsection \<open>A fetch that fails\<close>




subsection \<open>Overlapping fetches\<close>

text \<open>
  As claim C2 states it, a stale fetch never overwrites what a later call of
  \<open>startVariationPractice\<close> set. It does: when the fetch of the first call settles
  after the fetch of the second, the session names the second variation and holds the
  moves of the first.
\<close>

theorem stale_fetch_overwrites:
  "currentVariationName
     (variationFetched_A (Body (MoveArray [''d4'', ''d5'']))
       (variationFetched_A (Body (MoveArray [''e4'', ''e5'']))
         (startVariationPractice_A ''2'' ''Open Game''
           (startVariationPractice_A ''1'' ''Closed Game'' initial_A)))) = Some ''Open Game''
   \<and> currentMoves
     (variationFetched_A (Body (MoveArray [''d4'', ''d5'']))
       (variationFetched_A (Body (MoveArray [''e4'', ''e5'']))
         (startVariationPractice_A ''2'' ''Open Game''
           (startVariationPractice_A ''1'' ''Closed Game'' initial_A)))) = [''d4'', ''d5'']
   \<and> currentVariationName
     (variationFetched_B (Body (MoveArray [''d4'', ''d5'']))
       (variationFetched_B (Body (MoveArray [''e4'', ''e5'']))
         (startVariationPractice_B ''2'' ''Open Game''
           (startVariationPractice_B ''1'' ''Closed Game'' initial_B)))) = Some ''Open Game''
   \<and> currentMoves
     (variationFetched_B (Body (MoveArray [''d4'', ''d5'']))
       (variationFetched_B (Body (MoveArray [''e4'', ''e5'']))
         (startVariationPractice_B ''2'' ''Open Game''
           (startVariationPractice_B ''1'' ''Closed Game'' initial_B)))) = [''d4'', ''d5'']"
  by (simp add: variationFetched_A_def startVariationPractice_A_def
      variationFetched_B_def startVariationPractice_B_def)

lemma variationFetched_A_moves:
  "currentMoves (variationFetched_A r s) = (case accepted_moves r of Some ms \<Rightarrow> ms | None \<Rightarrow> currentMoves s)"
  "currentOpeningId (variationFetched_A r s) = currentOpeningId s"
  "currentVariationName (variationFetched_A r s) = currentVariationName s"
  "currentIndex (variationFetched_A r s) = currentIndex s"
  "lastFenIndex (variationFetched_A r s) = lastFenIndex s"
  by (simp_all add: variationFetched_A_def accepted_moves_def split: fetched.split payload.split)

lemma variationFetched_B_moves:
  "currentMoves (variationFetched_B r s) = (case accepted_moves r of Some ms \<Rightarrow> ms | None \<Rightarrow> currentMoves s)"
  "currentOpeningId (variationFetched_B r s) = currentOpeningId s"
  "currentVariationName (variationFetched_B r s) = currentVariationName s"
  "currentIndex (variationFetched_B r s) = currentIndex s"
  by (simp_all add: variationFetched_B_def accepted_moves_def split: fetched.split payload.split)

text \<open>
  Claim C2, amended. After two overlapping calls of \<open>startVariationPractice\<close>, in
  either order of settling, opening id and variation name are those of the second call,
  and the move list is the array of the fetch that settled last; if that fetch brought
  no array, the array of the other; if neither did, empty. Both variants.
\<close>

theorem last_settled_fetch_wins:
  "currentOpeningId (variationFetched_A r1 (variationFetched_A r2
      (startVariationPractice_A id2 name2 (startVariationPractice_A id1 name1 s)))) = Some id2
   \<and> currentVariationName (variationFetched_A r1 (variationFetched_A r2
      (startVariationPractice_A id2 name2 (startVariationPractice_A id1 name1 s)))) = Some name2
   \<and> currentMoves (variationFetched_A r1 (variationFetched_A r2
      (startVariationPractice_A id2 name2 (startVariationPractice_A id1 name1 s))))
     = (case accepted_moves r1 of Some ms \<Rightarrow> ms
        | None \<Rightarrow> (case accepted_moves r2 of Some ms \<Rightarrow> ms | None \<Rightarrow> []))
   \<and> currentOpeningId (variationFetched_A r2 (variationFetched_A r1
      (startVariationPractice_A id2 name2 (startVariationPractice_A id1 name1 s)))) = Some id2
   \<and> currentVariationName (variationFetched_A r2 (variationFetched_A r1
      (startVariationPractice_A id2 name2 (startVariationPractice_A id1 name1 s)))) = Some name2
   \<and> currentMoves (variationFetched_A r2 (variationFetched_A r1
      (startVariationPractice_A id2 name2 (startVariationPractice_A id1 name1 s))))
     = (case accepted_moves r2 of Some ms \<Rightarrow> ms
        | None \<Rightarrow> (case accepted_moves r1 of Some ms \<Rightarrow> ms | None \<Rightarrow> []))
   \<and> currentOpeningId (variationFetched_B r1 (variationFetched_B r2
      (startVariationPractice_B id2 name2 (startVariationPractice_B id1 name1 t)))) = Some id2
   \<and> currentVariationName (variationFetched_B r1 (variationFetched_B r2
      (startVariationPractice_B id2 name2 (startVariationPractice_B id1 name1 t)))) = Some name2
   \<and> currentMoves (variationFetched_B r1 (variationFetched_B r2
      (startVariationPractice_B id2 name2 (startVariationPractice_B id1 name1 t))))
     = (case accepted_moves r1 of Some ms \<Rightarrow> ms
        | None \<Rightarrow> (case accepted_moves r2 of Some ms \<Rightarrow> ms | None \<Rightarrow> []))
   \<and> currentOpeningId (variationFetched_B r2 (variationFetched_B r1
      (startVariationPractice_B id2 name2 (startVariationPractice_B id1 name1 t)))) = Some id2
   \<and> currentVariationName (variationFetched_B r2 (variationFetched_B r1
      (startVariationPractice_B id2 name2 (startVariationPractice_B id1 name1 t)))) = Some name2
   \<and> currentMoves (variationFetched_B r2 (variationFetched_B r1
      (startVariationPractice_B id2 name2 (startVariationPractice_B id1 name1 t))))
     = (case accepted_moves r2 of Some ms \<Rightarrow> ms
        | None \<Rightarrow> (case accepted_moves r1 of Some ms \<Rightarrow> ms | None \<Rightarrow> []))"
  by (simp add: variationFetched_A_moves variationFetched_B_moves
      startVariationPractice_A_def startVariationPractice_B_def split: option.split)


subsection \<open>A legal drop that is not the expected move\<close>

text \<open>
  Variant A takes the wrong move back: it loads the FEN it read before the attempt
  (\<open>game.load(beforeFen)\<close>), so the position is the one before the attempt, the drop is
  snapped back, the flag is set and the index stays. (\<open>fen()\<close> of a chess object is a
  FEN that \<open>load\<close> accepts.)
\<close>

lemma handlePieceDrop_A_wrong_move:
  assumes "currentMoves s \<noteq> []"
    and "currentIndex s < int (length (currentMoves s))"
    and "legal_drop R (fen (game s)) source target = Some (san, p)"
    and "Some (toLowerCase san) \<noteq> map_option toLowerCase (at_index (currentMoves s) (currentIndex s))"
    and "valid_fen R (fen (game s))"
  shows "fst (handlePieceDrop_A R source target s) = Snapback
   \<and> fen (game (snd (handlePieceDrop_A R source target s))) = fen (game s)
   \<and> wrongMove (snd (handlePieceDrop_A R source target s)) = True
   \<and> currentIndex (snd (handlePieceDrop_A R source target s)) = currentIndex s"
  using assms by (simp add: handlePieceDrop_A_def move_squares_def fen_def load_def Let_def)

text \<open>
  Claim C3. With moves loaded and the index below their number, a legal drop whose SAN is
  not the expected move puts the chess object back to the position before the attempt,
  snaps the drop back, sets the wrong-move flag and leaves the index. Variant A does
  (\<open>handlePieceDrop_A_wrong_move\<close>); variant B does not put the object back. After
  1. e4 played by \<open>handleNextMove\<close> in the variation 1. e4 e5, the drop c7-c5 in
  variant B is snapped back on the board while the chess object keeps it.
\<close>

theorem wrong_move_stays_applied_B:
  "currentMoves (handleNextMove_B first_moves practising_B) = [''e4'', ''e5'']
   \<and> currentIndex (handleNextMove_B first_moves practising_B) = 1
   \<and> fen (game (handleNextMove_B first_moves practising_B)) = fen_e4
   \<and> legal_drop first_moves fen_e4 ''c7'' ''c5'' = Some (''c5'', fen_e4_c5)
   \<and> fst (handlePieceDrop_B first_moves ''c7'' ''c5'' (handleNextMove_B first_moves practising_B)) = Snapback
   \<and> wrongMove (snd (handlePieceDrop_B first_moves ''c7'' ''c5'' (handleNextMove_B first_moves practising_B))) = True
   \<and> currentIndex (snd (handlePieceDrop_B first_moves ''c7'' ''c5'' (handleNextMove_B first_moves practising_B))) = 1
   \<and> fen (game (snd (handlePieceDrop_B first_moves ''c7'' ''c5'' (handleNextMove_B first_moves practising_B)))) = fen_e4_c5
   \<and> fen_e4_c5 \<noteq> fen_e4"
  by (simp add: states handlers_B chess_defs js_defs Let_def)

text \<open>
  The same through a run of variant B from the mounted component: the step forward
  changes the index, so the closure of that render is attached when the drop comes.
\<close>

lemma wrong_move_stays_applied_run_B:
  "map_option listener
     (run (step_B first_moves False)
        [Start ''2'' ''Open Game'', Fetched (Body (MoveArray [''e4'', ''e5''])), Next] mounted_B)
     = Some (handleNextMove_B first_moves practising_B)
   \<and> map_option ui
     (run (step_B first_moves False)
        [Start ''2'' ''Open Game'', Fetched (Body (MoveArray [''e4'', ''e5''])), Next,
         Drop ''c7'' ''c5''] mounted_B)
     = Some (snd (handlePieceDrop_B first_moves ''c7'' ''c5''
                (handleNextMove_B first_moves practising_B)))"
  by (simp add: states handlers_B chess_defs js_defs mounted_B_def may_start_def may_drop_def
      render_B_def effect_B_def Let_def)

subsection \<open>A drop after the last move\<close>

text \<open>
  Variant A answers a drop on a completed variation before it touches the chess object:
  nothing but the feedback changes.
\<close>

lemma handlePieceDrop_A_completed:
  assumes "currentMoves s \<noteq> []" and "currentIndex s = int (length (currentMoves s))"
  shows "handlePieceDrop_A R source target s
           = (Snapback, s\<lparr>feedback := ''No more moves in this variation.''\<rparr>)"
  using assms by (simp add: handlePieceDrop_A_def)

text \<open>
  Claim C4. With moves loaded and the index equal to their number, every drop is snapped
  back, the index stays and the position is the one before the attempt. Variant A does
  (\<open>handlePieceDrop_A_completed\<close>); variant B applies a legal drop to the chess object
  and leaves it there. In the completed variation 1. e4 the drop e7-e5 in variant B is
  snapped back on the board while the chess object keeps it.
\<close>

theorem completed_drop_stays_applied_B:
  "currentMoves (handleNextMove_B first_moves one_move_B) = [''e4'']
   \<and> currentIndex (handleNextMove_B first_moves one_move_B) = 1
   \<and> fen (game (handleNextMove_B first_moves one_move_B)) = fen_e4
   \<and> fst (handlePieceDrop_B first_moves ''e7'' ''e5'' (handleNextMove_B first_moves one_move_B)) = Snapback
   \<and> currentIndex (snd (handlePieceDrop_B first_moves ''e7'' ''e5'' (handleNextMove_B first_moves one_move_B))) = 1
   \<and> fen (game (snd (handlePieceDrop_B first_moves ''e7'' ''e5'' (handleNextMove_B first_moves one_move_B)))) = fen_e4_e5
   \<and> fen_e4_e5 \<noteq> fen_e4"
  by (simp add: states handlers_B chess_defs js_defs Let_def)

text \<open>The same through a run of variant B from the mounted component.\<close>

lemma completed_drop_stays_applied_run_B:
  "map_option listener
     (run (step_B first_moves False)
        [Start ''2'' ''Open Game'', Fetched (Body (MoveArray [''e4''])), Next] mounted_B)
     = Some (handleNextMove_B first_moves one_move_B)
   \<and> map_option ui
     (run (step_B first_moves False)
        [Start ''2'' ''Open Game'', Fetched (Body (MoveArray [''e4''])), Next,
         Drop ''e7'' ''e5''] mounted_B)
     = Some (snd (handlePieceDrop_B first_moves ''e7'' ''e5''
                (handleNextMove_B first_moves one_move_B)))"
  by (simp add: states handlers_B chess_defs js_defs mounted_B_def may_start_def may_drop_def
      render_B_def effect_B_def Let_def)

subsection \<open>Stepping forward\<close>

text \<open>
  Variant B, when the chess object takes the stored move, advances the index, records
  the new position as the last good one and clears the flag.
\<close>

lemma handleNextMove_B_applied:
  assumes "currentMoves s \<noteq> []"
    and "0 \<le> currentIndex s" and "currentIndex s < int (length (currentMoves s))"
    and "legal_san R (fen (game s)) (currentMoves s ! nat (currentIndex s)) = Some (san, p)"
  shows "currentIndex (handleNextMove_B R s) = currentIndex s + 1
   \<and> fen (game (handleNextMove_B R s)) = p
   \<and> lastFen (handleNextMove_B R s) = p
   \<and> wrongMove (handleNextMove_B R s) = False"
  using assms by (simp add: handleNextMove_B_def move_san_def fen_def at_index_def Let_def)

text \<open>
  Claim C5. A step forward that applies the stored move advances the index by one, takes
  the new position as last good position, the new index as last good index, and clears the
  wrong-move flag. Variant B does (\<open>handleNextMove_B_applied\<close>; it has no last good
  index); variant A advances the index and writes neither \<open>lastFen\<close> nor
  \<open>lastFenIndex\<close> nor \<open>wrongMove\<close>. In the variation 1. e4 e5, after the wrong drop
  d2-d4, the step forward of variant A leaves the flag set and the last good position
  and index at the start.
\<close>

theorem step_forward_keeps_last_good_A:
  "wrongMove (snd (handlePieceDrop_A first_moves ''d2'' ''d4'' practising_A)) = True
   \<and> currentIndex (snd (handlePieceDrop_A first_moves ''d2'' ''d4'' practising_A)) = 0
   \<and> currentIndex (handleNextMove_A first_moves (snd (handlePieceDrop_A first_moves ''d2'' ''d4'' practising_A))) = 1
   \<and> fen (game (handleNextMove_A first_moves (snd (handlePieceDrop_A first_moves ''d2'' ''d4'' practising_A)))) = fen_e4
   \<and> lastFen (handleNextMove_A first_moves (snd (handlePieceDrop_A first_moves ''d2'' ''d4'' practising_A))) = ''start''
   \<and> lastFenIndex (handleNextMove_A first_moves (snd (handlePieceDrop_A first_moves ''d2'' ''d4'' practising_A))) = 0
   \<and> wrongMove (handleNextMove_A first_moves (snd (handlePieceDrop_A first_moves ''d2'' ''d4'' practising_A))) = True"
  by (simp add: states handlers_A chess_defs js_defs Let_def)

text \<open>
  Variant A checks what \<open>game.move\<close> answers: when the stored move is refused, nothing
  but the feedback changes.
\<close>

lemma handleNextMove_A_refused:
  assumes "currentMoves s \<noteq> []"
    and "0 \<le> currentIndex s" and "currentIndex s < int (length (currentMoves s))"
    and "legal_san R (fen (game s)) (currentMoves s ! nat (currentIndex s)) = None"
  shows "handleNextMove_A R s = s\<lparr>feedback := ''Invalid move sequence? Could not apply next move.''\<rparr>"
  using assms by (simp add: handleNextMove_A_def move_san_def fen_def at_index_def)

text \<open>
  Claim C6. When the chess object refuses the stored move, the step forward fails with an
  error feedback and does not change the index. Variant A does
  (\<open>handleNextMove_A_refused\<close>); variant B does not look at the answer. With the stored
  sequence \<open>Ke2\<close>, which is not legal in the initial position, the step forward of variant B
  advances the index to 1 and reports a forward move, the position unchanged.
\<close>

theorem refused_step_advances_B:
  "legal_san first_moves (fen (game (variationFetched_B (Body (MoveArray [''Ke2'']))
       (startVariationPractice_B ''2'' ''Open Game'' initial_B)))) ''Ke2'' = None
   \<and> currentIndex (variationFetched_B (Body (MoveArray [''Ke2'']))
       (startVariationPractice_B ''2'' ''Open Game'' initial_B)) = 0
   \<and> currentIndex (handleNextMove_B first_moves (variationFetched_B (Body (MoveArray [''Ke2'']))
       (startVariationPractice_B ''2'' ''Open Game'' initial_B))) = 1
   \<and> feedback (handleNextMove_B first_moves (variationFetched_B (Body (MoveArray [''Ke2'']))
       (startVariationPractice_B ''2'' ''Open Game'' initial_B))) = ''Forward move: Ke2''
   \<and> fen (game (handleNextMove_B first_moves (variationFetched_B (Body (MoveArray [''Ke2'']))
       (startVariationPractice_B ''2'' ''Open Game'' initial_B)))) = DEFAULT_POSITION"
  by (simp add: states handlers_B chess_defs js_defs Let_def)

subsection \<open>The range of the index\<close>

text \<open>
  Each handler keeps the index in range, and keeps an empty move list empty while a
  fetch is in flight.
\<close>

lemma drop_A_bounded:
  "bounded_A s \<Longrightarrow> bounded_A (snd (handlePieceDrop_A R source target s))"
  by (auto simp add: bounded_A_def index_in_range_def handlePieceDrop_A_def Let_def
      split: option.split)

lemma drop_A_empty:
  "currentMoves s = [] \<Longrightarrow> currentMoves (snd (handlePieceDrop_A R source target s)) = []"
  by (auto simp add: handlePieceDrop_A_def split: option.split)

lemma prev_A_bounded: "bounded_A s \<Longrightarrow> bounded_A (handlePrevMove_A s)"
  by (auto simp add: bounded_A_def index_in_range_def handlePrevMove_A_def Let_def)

lemma prev_A_empty: "currentMoves s = [] \<Longrightarrow> currentMoves (handlePrevMove_A s) = []"
  by (simp add: handlePrevMove_A_def)

lemma next_A_bounded: "bounded_A s \<Longrightarrow> bounded_A (handleNextMove_A R s)"
  by (auto simp add: bounded_A_def index_in_range_def handleNextMove_A_def
      split: option.split)

lemma next_A_empty: "currentMoves s = [] \<Longrightarrow> currentMoves (handleNextMove_A R s) = []"
  by (simp add: handleNextMove_A_def)

lemma reset_last_A_bounded: "bounded_A s \<Longrightarrow> bounded_A (handleResetToLastPosition_A R s)"
  by (auto simp add: bounded_A_def index_in_range_def handleResetToLastPosition_A_def)

lemma reset_last_A_empty:
  "currentMoves s = [] \<Longrightarrow> currentMoves (handleResetToLastPosition_A R s) = []"
  by (simp add: handleResetToLastPosition_A_def)

lemma reset_board_A_bounded: "bounded_A s \<Longrightarrow> bounded_A (handleResetBoard_A s)"
  by (auto simp add: bounded_A_def index_in_range_def handleResetBoard_A_def)

lemma reset_board_A_empty: "currentMoves s = [] \<Longrightarrow> currentMoves (handleResetBoard_A s) = []"
  by (simp add: handleResetBoard_A_def)

lemma freeplay_A_bounded:
  "bounded_A (enterFreeplayMode_A s)" "currentMoves (enterFreeplayMode_A s) = []"
  by (simp_all add: bounded_A_def index_in_range_def enterFreeplayMode_A_def)

lemma start_A_bounded:
  "bounded_A (startVariationPractice_A openingId variationName s)"
  "currentMoves (startVariationPractice_A openingId variationName s) = []"
  by (simp_all add: bounded_A_def index_in_range_def startVariationPractice_A_def)

lemma fetched_A_bounded:
  "bounded_A s \<Longrightarrow> currentMoves s = [] \<Longrightarrow> bounded_A (variationFetched_A r s)"
  by (auto simp add: bounded_A_def index_in_range_def variationFetched_A_def
      split: fetched.split payload.split)

lemma random_A_bounded:
  "bounded_A s \<Longrightarrow> bounded_A (handleRandomVariation_A s)"
  "currentMoves s = [] \<Longrightarrow> currentMoves (handleRandomVariation_A s) = []"
  by (simp_all add: bounded_A_def index_in_range_def handleRandomVariation_A_def)

lemma random_fetched_A_bounded:
  "bounded_A s \<Longrightarrow> bounded_A (randomFetched_A r s)"
  "currentMoves s = [] \<Longrightarrow> currentMoves (randomFetched_A r s) = []"
  by (auto simp add: bounded_A_def index_in_range_def randomFetched_A_def
      startVariationPractice_A_def split: random_fetched.split)

lemma random_body_A_empty:
  "currentMoves (randomFetched_A (RandomBody openingId variationName) s) = []"
  by (simp add: randomFetched_A_def startVariationPractice_A_def)

lemma step_A_settled:
  assumes "settled_A a" and "step_A R True e a = Some a'"
  shows "settled_A a'"
proof (cases e)
  case (Drop source target)
  with assms show ?thesis
    by (auto simp add: settled_A_def drop_A_bounded drop_A_empty split: if_splits)
next
  case Prev
  with assms show ?thesis
    by (auto simp add: settled_A_def prev_A_bounded prev_A_empty split: if_splits)
next
  case Next
  with assms show ?thesis
    by (auto simp add: settled_A_def next_A_bounded next_A_empty split: if_splits)
next
  case ResetToLast
  with assms show ?thesis
    by (auto simp add: settled_A_def reset_last_A_bounded reset_last_A_empty split: if_splits)
next
  case ResetBoard
  with assms show ?thesis
    by (auto simp add: settled_A_def reset_board_A_bounded reset_board_A_empty split: if_splits)
next
  case Freeplay
  with assms show ?thesis
    by (auto simp add: settled_A_def freeplay_A_bounded split: if_splits)
next
  case (Start openingId variationName)
  with assms show ?thesis
    by (auto simp add: settled_A_def may_start_def start_A_bounded split: if_splits)
next
  case (Fetched r)
  with assms show ?thesis
    by (auto simp add: settled_A_def fetched_A_bounded split: if_splits)
next
  case Random
  with assms show ?thesis
    by (auto simp add: settled_A_def random_A_bounded split: if_splits)
next
  case (RandomFetched r)
  with assms show ?thesis
    by (cases r)
      (auto simp add: settled_A_def may_start_def random_fetched_A_bounded
        random_body_A_empty split: if_splits)
qed

lemma run_settled:
  assumes "\<And>e a a'. P a \<Longrightarrow> step e a = Some a' \<Longrightarrow> P a'"
  shows "P a \<Longrightarrow> run step es a = Some a' \<Longrightarrow> P a'"
proof (induction es arbitrary: a)
  case Nil
  then show ?case by simp
next
  case (Cons e es)
  then obtain b where b: "step e a = Some b" and r: "run step es b = Some a'"
    by (auto split: option.splits)
  from assms [OF Cons.prems(1) b] have "P b" .
  from Cons.IH [OF this r] show ?case .
qed

lemma mounted_A_settled: "settled_A mounted_A"
  by (simp add: settled_A_def bounded_A_def index_in_range_def mounted_A_def initial_A_def)

lemma drop_B_keeps:
  "index_in_range s \<Longrightarrow> index_in_range (snd (handlePieceDrop_B R source target s))"
  "currentMoves (snd (dropListener_B R c source target s)) = currentMoves s"
  "currentMoves (snd (handlePieceDrop_B R source target s)) = currentMoves s"
  by (auto simp add: index_in_range_def handlePieceDrop_B_def dropListener_B_def at_index_def
      Let_def split: option.split)

lemma drop_B_free:
  "currentMoves c = [] \<Longrightarrow> index_in_range s \<Longrightarrow>
     index_in_range (snd (dropListener_B R c source target s))"
  by (auto simp add: index_in_range_def dropListener_B_def split: option.split)

lemma drop_B_current:
  assumes m: "currentMoves c = currentMoves s" and i: "currentIndex c = currentIndex s"
  shows "dropListener_B R c source target s = handlePieceDrop_B R source target s"
  unfolding handlePieceDrop_B_def dropListener_B_def m i by (rule refl)

lemma reset_last_B_keeps:
  "index_in_range s \<Longrightarrow> index_in_range (handleResetToLastPosition_B R s)"
  "currentMoves s = [] \<Longrightarrow> currentMoves (handleResetToLastPosition_B R s) = []"
  by (simp_all add: index_in_range_def handleResetToLastPosition_B_def)

lemma prev_B_keeps:
  "index_in_range s \<Longrightarrow> index_in_range (handlePrevMove_B s)"
  "currentMoves s = [] \<Longrightarrow> currentMoves (handlePrevMove_B s) = []"
  by (auto simp add: index_in_range_def handlePrevMove_B_def Let_def)

lemma next_B_keeps:
  "index_in_range s \<Longrightarrow> index_in_range (handleNextMove_B R s)"
  "currentMoves s = [] \<Longrightarrow> currentMoves (handleNextMove_B R s) = []"
  by (auto simp add: index_in_range_def handleNextMove_B_def Let_def)

lemma reset_board_B_keeps:
  "index_in_range s \<Longrightarrow> index_in_range (handleResetBoard_B s)"
  "currentMoves s = [] \<Longrightarrow> currentMoves (handleResetBoard_B s) = []"
  by (auto simp add: index_in_range_def handleResetBoard_B_def)

lemma freeplay_B_keeps:
  "index_in_range (enterFreeplayMode_B s)" "currentMoves (enterFreeplayMode_B s) = []"
  by (simp_all add: index_in_range_def enterFreeplayMode_B_def)

lemma start_B_keeps:
  "index_in_range (startVariationPractice_B openingId variationName s)"
  "currentMoves (startVariationPractice_B openingId variationName s) = []"
  by (simp_all add: index_in_range_def startVariationPractice_B_def)

lemma fetched_B_keeps:
  "index_in_range s \<Longrightarrow> currentMoves s = [] \<Longrightarrow> index_in_range (variationFetched_B r s)"
  by (auto simp add: index_in_range_def variationFetched_B_def
      split: fetched.split payload.split)

lemma random_B_keeps:
  "index_in_range s \<Longrightarrow> index_in_range (handleRandomVariation_B s)"
  "currentMoves s = [] \<Longrightarrow> currentMoves (handleRandomVariation_B s) = []"
  by (simp_all add: index_in_range_def handleRandomVariation_B_def)

lemma random_fetched_B_keeps:
  "index_in_range s \<Longrightarrow> index_in_range (randomFetched_B r s)"
  "currentMoves s = [] \<Longrightarrow> currentMoves (randomFetched_B r s) = []"
  "currentMoves (randomFetched_B (RandomBody openingId variationName) s) = []"
  by (auto simp add: index_in_range_def randomFetched_B_def
      startVariationPractice_B_def split: random_fetched.split)

text \<open>A render keeps the index of the attached closure equal to the index of the state.\<close>

lemma render_B_fields:
  "ui (render_B a s) = s"
  "variationFetches (render_B a s) = variationFetches a"
  "randomFetches (render_B a s) = randomFetches a"
  by (simp_all add: render_B_def)

lemma render_B_index:
  "currentIndex (listener a) = currentIndex (ui a) \<Longrightarrow>
     currentIndex (listener (render_B a s)) = currentIndex s"
  by (simp add: render_B_def effect_B_def)

lemma step_B_settled:
  assumes "settled_B a" and "step_B R True e a = Some a'"
  shows "settled_B a'"
proof (cases e)
  case (Drop source target)
  from assms(1) have i: "currentIndex (listener a) = currentIndex (ui a)"
    by (simp add: settled_B_def)
  from Drop assms(2)
  have a': "a' = render_B a (snd (dropListener_B R (listener a) source target (ui a)))"
    and m: "currentMoves (listener a) = currentMoves (ui a) \<or> currentMoves (listener a) = []"
    by (simp_all add: may_drop_def split: if_splits)
  from assms(1) have "index_in_range (ui a)" by (simp add: settled_B_def)
  with m i have "index_in_range (snd (dropListener_B R (listener a) source target (ui a)))"
    by (auto simp add: drop_B_free drop_B_current drop_B_keeps)
  with assms(1) i show ?thesis
    unfolding a' settled_B_def
    by (auto simp add: render_B_fields render_B_index drop_B_keeps split: if_splits)
next
  case Prev
  with assms show ?thesis
    by (auto simp add: settled_B_def render_B_fields render_B_index prev_B_keeps split: if_splits)
next
  case Next
  with assms show ?thesis
    by (auto simp add: settled_B_def render_B_fields render_B_index next_B_keeps split: if_splits)
next
  case ResetToLast
  with assms show ?thesis
    by (auto simp add: settled_B_def render_B_fields render_B_index reset_last_B_keeps
        split: if_splits)
next
  case ResetBoard
  with assms show ?thesis
    by (auto simp add: settled_B_def render_B_fields render_B_index reset_board_B_keeps
        split: if_splits)
next
  case Freeplay
  with assms show ?thesis
    by (auto simp add: settled_B_def render_B_fields render_B_index freeplay_B_keeps
        split: if_splits)
next
  case (Start openingId variationName)
  with assms show ?thesis
    by (auto simp add: settled_B_def may_start_def render_B_fields render_B_index start_B_keeps
        split: if_splits)
next
  case (Fetched r)
  with assms show ?thesis
    by (auto simp add: settled_B_def render_B_fields render_B_index fetched_B_keeps
        split: if_splits)
next
  case Random
  with assms show ?thesis
    by (auto simp add: settled_B_def render_B_fields render_B_index random_B_keeps
        split: if_splits)
next
  case (RandomFetched r)
  with assms show ?thesis
    by (cases r)
      (auto simp add: settled_B_def may_start_def render_B_fields render_B_index
        random_fetched_B_keeps split: if_splits)
qed

lemma mounted_B_settled: "settled_B mounted_B"
  by (simp add: settled_B_def index_in_range_def mounted_B_def initial_B_def)

text \<open>
  As claim C9 states it, the index is in range in every reachable state. With two
  overlapping calls of \<open>startVariationPractice\<close> it is not: the second variation
  1. e4 e5 is loaded and stepped through to index 2, then the fetch of the first call
  settles with the one move 1. d4.
\<close>

theorem overlapping_fetch_breaks_range:
  "map_option (index_in_range \<circ> ui)
     (run (step_A first_moves False)
        [Start ''1'' ''Closed Game'', Start ''2'' ''Open Game'',
         Fetched (Body (MoveArray [''e4'', ''e5''])), Next, Next,
         Fetched (Body (MoveArray [''d4'']))]
        mounted_A) = Some False
   \<and> map_option (index_in_range \<circ> ui)
     (run (step_B first_moves False)
        [Start ''1'' ''Closed Game'', Start ''2'' ''Open Game'',
         Fetched (Body (MoveArray [''e4'', ''e5''])), Next, Next,
         Fetched (Body (MoveArray [''d4'']))]
        mounted_B) = Some False"
  by (simp add: handlers_A handlers_B chess_defs js_defs initial_A_def initial_B_def
      mounted_A_def mounted_B_def may_start_def render_B_def effect_B_def
      index_in_range_def Let_def)

text \<open>
  Without an overlap, variant B still leaves the range through a closure that is out of
  date: the variation 1. e4 e5 is loaded, stepped forward and back, and chosen again.
  Nothing the effect depends on has changed, the closure with the old move list stays
  attached, and the drop e2-e4 is counted as the first move of an empty list.
\<close>

lemma stale_listener_leaves_range_B:
  "map_option (index_in_range \<circ> ui)
     (run (step_B first_moves False)
        [Start ''2'' ''Open Game'', Fetched (Body (MoveArray [''e4'', ''e5''])), Next, Prev,
         Start ''2'' ''Open Game'', Drop ''e2'' ''e4'']
        mounted_B) = Some False
   \<and> map_option (currentIndex \<circ> ui)
     (run (step_B first_moves False)
        [Start ''2'' ''Open Game'', Fetched (Body (MoveArray [''e4'', ''e5''])), Next, Prev,
         Start ''2'' ''Open Game'', Drop ''e2'' ''e4'']
        mounted_B) = Some 1
   \<and> map_option (currentMoves \<circ> ui)
     (run (step_B first_moves False)
        [Start ''2'' ''Open Game'', Fetched (Body (MoveArray [''e4'', ''e5''])), Next, Prev,
         Start ''2'' ''Open Game'', Drop ''e2'' ''e4'']
        mounted_B) = Some []"
  by (simp add: handlers_B chess_defs js_defs initial_B_def mounted_B_def may_start_def
      may_drop_def render_B_def effect_B_def index_in_range_def Let_def)

text \<open>
  Claim C9, amended. From the mounted component, after every run of drops, steps, resets,
  mode switches, random picks and variation loads in which \<open>startVariationPractice\<close> is
  not called while one of its fetches is in flight, and in which, in variant B, no drop
  is made while the closure attached to the board holds a move list that is neither empty
  nor that of the state, the index is at least 0 and at most the number of moves. Both
  variants.
\<close>

theorem index_in_range_without_overlap:
  "(\<forall>a. run (step_A R True) es mounted_A = Some a \<longrightarrow> index_in_range (ui a))
   \<and> (\<forall>b. run (step_B R True) es mounted_B = Some b \<longrightarrow> index_in_range (ui b))"
proof (intro conjI allI impI)
  fix a assume "run (step_A R True) es mounted_A = Some a"
  then have "settled_A a"
    using run_settled [of settled_A "step_A R True" mounted_A es a]
      step_A_settled mounted_A_settled by blast
  then show "index_in_range (ui a)" by (simp add: settled_A_def bounded_A_def)
next
  fix b assume "run (step_B R True) es mounted_B = Some b"
  then have "settled_B b"
    using run_settled [of settled_B "step_B R True" mounted_B es b]
      step_B_settled mounted_B_settled by blast
  then show "index_in_range (ui b)" by (simp add: settled_B_def)
qed

theorem index_in_range_without_overlap_witness:
  "map_option (index_in_range \<circ> ui)
     (run (step_A first_moves True)
        [Start ''2'' ''Open Game'', Fetched (Body (MoveArray [''e4'', ''e5''])),
         Drop ''d2'' ''d4'', Drop ''e2'' ''e4'', Next, Next, Prev, ResetToLast, ResetBoard,
         Random, RandomFetched (RandomBody ''1'' ''Closed Game''),
         Fetched (Body (MoveArray [''d4''])), Next, Freeplay]
        mounted_A) = Some True
   \<and> map_option (index_in_range \<circ> ui)
     (run (step_B first_moves True)
        [Start ''2'' ''Open Game'', Fetched (Body (MoveArray [''e4'', ''e5''])),
         Drop ''e2'' ''e4'', Drop ''c7'' ''c5'', Prev, ResetBoard,
         Next, Drop ''c7'' ''c5'', ResetToLast, Drop ''e7'' ''e5'', Prev, ResetBoard,
         Random, RandomFetched (RandomBody ''1'' ''Closed Game''),
         Fetched (Body (MoveArray [''d4''])), Next, Freeplay]
        mounted_B) = Some True"
proof -
  obtain a where a: "run (step_A first_moves True)
        [Start ''2'' ''Open Game'', Fetched (Body (MoveArray [''e4'', ''e5''])),
         Drop ''d2'' ''d4'', Drop ''e2'' ''e4'', Next, Next, Prev, ResetToLast, ResetBoard,
         Random, RandomFetched (RandomBody ''1'' ''Closed Game''),
         Fetched (Body (MoveArray [''d4''])), Next, Freeplay]
        mounted_A = Some a"
    by (simp add: mounted_A_def may_start_def)
  obtain b where b: "run (step_B first_moves True)
        [Start ''2'' ''Open Game'', Fetched (Body (MoveArray [''e4'', ''e5''])),
         Drop ''e2'' ''e4'', Drop ''c7'' ''c5'', Prev, ResetBoard,
         Next, Drop ''c7'' ''c5'', ResetToLast, Drop ''e7'' ''e5'', Prev, ResetBoard,
         Random, RandomFetched (RandomBody ''1'' ''Closed Game''),
         Fetched (Body (MoveArray [''d4''])), Next, Freeplay]
        mounted_B = Some b"
    by (simp add: handlers_B chess_defs js_defs initial_B_def mounted_B_def may_start_def
        may_drop_def render_B_def effect_B_def Let_def)
  from index_in_range_without_overlap [of first_moves] a b
  have "index_in_range (ui a)" and "index_in_range (ui b)"
    by blast+
  then show ?thesis
    unfolding a b by simp
qed

subsection \<open>Resetting to the last good position\<close>

text \<open>The operations of the chess object keep it sound.\<close>

lemma sound_reset: "fen_closed R \<Longrightarrow> sound R (reset g)"
  by (simp add: fen_closed_def sound_def reset_def)

lemma sound_new_Chess: "fen_closed R \<Longrightarrow> sound R new_Chess"
  by (simp add: fen_closed_def sound_def new_Chess_def)

lemma sound_load: "sound R g \<Longrightarrow> sound R (load R g f)"
  by (simp add: sound_def load_def)

lemma sound_undo: "sound R g \<Longrightarrow> sound R (undo g)"
  by (auto simp add: sound_def undo_def split: list.split)

lemma sound_move_squares:
  assumes "fen_closed R" and "sound R g" and "move_squares R g source target = Some (san, g')"
  shows "sound R g'"
proof -
  from assms(3) obtain q where q: "legal_drop R (position g) source target = Some (san, q)"
    and g': "g' = \<lparr>position = q, history = position g # history g\<rparr>"
    by (auto simp add: move_squares_def split: option.splits)
  from assms(1,2) q have "valid_fen R q"
    unfolding fen_closed_def sound_def by blast
  with assms(2) g' show ?thesis by (simp add: sound_def)
qed

lemma sound_move_san:
  assumes "fen_closed R" and "sound R g" and "move_san R g m = Some (san, g')"
  shows "sound R g'"
proof -
  from assms(3) obtain q where q: "legal_san R (position g) m = Some (san, q)"
    and g': "g' = \<lparr>position = q, history = position g # history g\<rparr>"
    by (auto simp add: move_san_def split: option.splits)
  from assms(1,2) q have "valid_fen R q"
    unfolding fen_closed_def sound_def by blast
  with assms(2) g' show ?thesis by (simp add: sound_def)
qed

lemma sound_fen: "sound R g \<Longrightarrow> valid_fen R (fen g)"
  by (simp add: sound_def fen_def)

lemma fen_load: "valid_fen R f \<Longrightarrow> fen (load R g f) = f"
  by (simp add: fen_def load_def)

text \<open>Every handler of variant B keeps \<open>lastFen\<close> a string that \<open>load\<close> accepts.\<close>

lemma drop_B_restorable:
  assumes "fen_closed R" and "restorable_B R s"
  shows "restorable_B R (snd (dropListener_B R c source target s))"
proof (cases "move_squares R (game s) source target")
  case None
  with assms(2) show ?thesis by (simp add: dropListener_B_def)
next
  case (Some m)
  obtain san g where m: "m = (san, g)" by (cases m)
  from assms Some m have g: "sound R g"
    by (auto simp add: restorable_B_def intro: sound_move_squares)
  from g have "valid_fen R (fen g)" by (rule sound_fen)
  with assms(2) g Some m show ?thesis
    by (simp add: dropListener_B_def restorable_B_def Let_def)
qed

lemma next_B_restorable:
  assumes "fen_closed R" and "restorable_B R s"
  shows "restorable_B R (handleNextMove_B R s)"
proof -
  have g: "sound R (case at_index (currentMoves s) (currentIndex s) of
                     None \<Rightarrow> game s
                   | Some san \<Rightarrow>
                       (case move_san R (game s) san of None \<Rightarrow> game s | Some (x, g') \<Rightarrow> g'))"
    using assms
    by (auto simp add: restorable_B_def split: option.split intro: sound_move_san)
  from g have "valid_fen R (fen (case at_index (currentMoves s) (currentIndex s) of
                     None \<Rightarrow> game s
                   | Some san \<Rightarrow>
                       (case move_san R (game s) san of None \<Rightarrow> game s | Some (x, g') \<Rightarrow> g')))"
    by (rule sound_fen)
  with g assms(2) show ?thesis
    by (simp add: handleNextMove_B_def restorable_B_def Let_def)
qed

lemma prev_B_restorable:
  assumes "restorable_B R s"
  shows "restorable_B R (handlePrevMove_B s)"
proof -
  from assms have g: "sound R (undo (game s))"
    by (simp add: restorable_B_def sound_undo)
  from g have "valid_fen R (fen (undo (game s)))" by (rule sound_fen)
  with g assms show ?thesis
    by (simp add: handlePrevMove_B_def restorable_B_def Let_def)
qed

lemma reset_last_B_restorable:
  "restorable_B R s \<Longrightarrow> restorable_B R (handleResetToLastPosition_B R s)"
  by (simp add: handleResetToLastPosition_B_def restorable_B_def sound_load)

lemma reset_board_B_restorable:
  "fen_closed R \<Longrightarrow> restorable_B R s \<Longrightarrow> restorable_B R (handleResetBoard_B s)"
  by (simp add: handleResetBoard_B_def restorable_B_def sound_reset)

lemma freeplay_B_restorable: "fen_closed R \<Longrightarrow> restorable_B R (enterFreeplayMode_B s)"
  by (simp add: enterFreeplayMode_B_def restorable_B_def sound_reset)

lemma start_B_restorable:
  "fen_closed R \<Longrightarrow> restorable_B R (startVariationPractice_B openingId variationName s)"
  by (simp add: startVariationPractice_B_def restorable_B_def sound_reset)

lemma fetched_B_restorable: "restorable_B R s \<Longrightarrow> restorable_B R (variationFetched_B r s)"
  by (simp add: variationFetched_B_def restorable_B_def split: fetched.split payload.split)

lemma random_B_restorable: "restorable_B R s \<Longrightarrow> restorable_B R (handleRandomVariation_B s)"
  by (simp add: handleRandomVariation_B_def restorable_B_def)

lemma random_fetched_B_restorable:
  "fen_closed R \<Longrightarrow> restorable_B R s \<Longrightarrow> restorable_B R (randomFetched_B r s)"
  by (simp add: randomFetched_B_def restorable_B_def startVariationPractice_B_def sound_reset
      split: random_fetched.split)

lemma step_B_restorable:
  assumes "fen_closed R" and "restorable_B R (ui a)" and "step_B R x e a = Some a'"
  shows "restorable_B R (ui a')"
proof (cases e)
  case (Drop source target)
  with assms show ?thesis
    by (auto simp add: render_B_def drop_B_restorable split: if_splits)
next
  case Prev
  with assms show ?thesis by (auto simp add: render_B_def prev_B_restorable)
next
  case Next
  with assms show ?thesis by (auto simp add: render_B_def next_B_restorable)
next
  case ResetToLast
  with assms show ?thesis by (auto simp add: render_B_def reset_last_B_restorable)
next
  case ResetBoard
  with assms show ?thesis by (auto simp add: render_B_def reset_board_B_restorable)
next
  case Freeplay
  with assms show ?thesis by (auto simp add: render_B_def freeplay_B_restorable)
next
  case (Start openingId variationName)
  with assms show ?thesis
    by (auto simp add: render_B_def start_B_restorable split: if_splits)
next
  case (Fetched r)
  with assms show ?thesis
    by (auto simp add: render_B_def fetched_B_restorable split: if_splits)
next
  case Random
  with assms show ?thesis by (auto simp add: render_B_def random_B_restorable)
next
  case (RandomFetched r)
  with assms show ?thesis
    by (cases r) (auto simp add: render_B_def random_fetched_B_restorable split: if_splits)
qed

lemma run_B_restorable:
  assumes "fen_closed R" and "run (step_B R x) es mounted_B = Some b"
  shows "restorable_B R (ui b)"
proof -
  have "restorable_B R (ui mounted_B)"
    using assms(1) by (simp add: restorable_B_def mounted_B_def initial_B_def sound_new_Chess)
  with assms(2) show ?thesis
    using run_settled [of "\<lambda>a. restorable_B R (ui a)" "step_B R x" mounted_B es b]
      step_B_restorable [OF assms(1)] by blast
qed

text \<open>Every handler of variant A does the same.\<close>

lemma drop_A_restorable:
  assumes "fen_closed R" and "restorable_A R s"
  shows "restorable_A R (snd (handlePieceDrop_A R source target s))"
proof (cases "move_squares R (game s) source target")
  case None
  with assms(2) show ?thesis by (simp add: handlePieceDrop_A_def restorable_A_def)
next
  case (Some m)
  obtain san g where m: "m = (san, g)" by (cases m)
  from assms Some m have g: "sound R g"
    by (auto simp add: restorable_A_def intro: sound_move_squares)
  from g have v: "valid_fen R (fen g)" by (rule sound_fen)
  from g have l: "sound R (load R g (fen (game s)))" by (rule sound_load)
  from assms(2) g v l Some m show ?thesis
    by (simp add: handlePieceDrop_A_def restorable_A_def Let_def)
qed

lemma next_A_restorable:
  assumes "fen_closed R" and "restorable_A R s"
  shows "restorable_A R (handleNextMove_A R s)"
  using assms
  by (auto simp add: handleNextMove_A_def restorable_A_def split: option.split
      intro: sound_move_san)

lemma prev_A_restorable: "restorable_A R s \<Longrightarrow> restorable_A R (handlePrevMove_A s)"
  by (simp add: handlePrevMove_A_def restorable_A_def Let_def sound_undo)

lemma reset_last_A_restorable:
  "fen_closed R \<Longrightarrow> restorable_A R s \<Longrightarrow> restorable_A R (handleResetToLastPosition_A R s)"
  by (simp add: handleResetToLastPosition_A_def restorable_A_def sound_load sound_reset)

lemma reset_board_A_restorable:
  "fen_closed R \<Longrightarrow> restorable_A R s \<Longrightarrow> restorable_A R (handleResetBoard_A s)"
  by (simp add: handleResetBoard_A_def restorable_A_def sound_reset)

lemma freeplay_A_restorable: "fen_closed R \<Longrightarrow> restorable_A R (enterFreeplayMode_A s)"
  by (simp add: enterFreeplayMode_A_def restorable_A_def sound_reset)

lemma start_A_restorable:
  "fen_closed R \<Longrightarrow> restorable_A R (startVariationPractice_A openingId variationName s)"
  by (simp add: startVariationPractice_A_def restorable_A_def sound_reset)

lemma fetched_A_restorable: "restorable_A R s \<Longrightarrow> restorable_A R (variationFetched_A r s)"
  by (simp add: variationFetched_A_def restorable_A_def split: fetched.split payload.split)

lemma random_A_restorable: "restorable_A R s \<Longrightarrow> restorable_A R (handleRandomVariation_A s)"
  by (simp add: handleRandomVariation_A_def restorable_A_def)

lemma random_fetched_A_restorable:
  "fen_closed R \<Longrightarrow> restorable_A R s \<Longrightarrow> restorable_A R (randomFetched_A r s)"
  by (simp add: randomFetched_A_def restorable_A_def startVariationPractice_A_def sound_reset
      split: random_fetched.split)

lemma step_A_restorable:
  assumes "fen_closed R" and "restorable_A R (ui a)" and "step_A R x e a = Some a'"
  shows "restorable_A R (ui a')"
proof (cases e)
  case (Drop source target)
  with assms show ?thesis by (auto simp add: drop_A_restorable)
next
  case Prev
  with assms show ?thesis by (auto simp add: prev_A_restorable)
next
  case Next
  with assms show ?thesis by (auto simp add: next_A_restorable)
next
  case ResetToLast
  with assms show ?thesis by (auto simp add: reset_last_A_restorable)
next
  case ResetBoard
  with assms show ?thesis by (auto simp add: reset_board_A_restorable)
next
  case Freeplay
  with assms show ?thesis by (auto simp add: freeplay_A_restorable)
next
  case (Start openingId variationName)
  with assms show ?thesis by (auto simp add: start_A_restorable split: if_splits)
next
  case (Fetched r)
  with assms show ?thesis by (auto simp add: fetched_A_restorable split: if_splits)
next
  case Random
  with assms show ?thesis by (auto simp add: random_A_restorable)
next
  case (RandomFetched r)
  with assms show ?thesis
    by (cases r) (auto simp add: random_fetched_A_restorable split: if_splits)
qed

lemma run_A_restorable:
  assumes "fen_closed R" and "run (step_A R x) es mounted_A = Some a"
  shows "restorable_A R (ui a)"
proof -
  have "restorable_A R (ui mounted_A)"
    using assms(1) by (simp add: restorable_A_def mounted_A_def initial_A_def sound_new_Chess)
  with assms(2) show ?thesis
    using run_settled [of "\<lambda>a. restorable_A R (ui a)" "step_A R x" mounted_A es a]
      step_A_restorable [OF assms(1)] by blast
qed

lemma first_moves_closed: "fen_closed first_moves"
  by (auto simp add: fen_closed_def first_moves_def split: if_splits)

text \<open>
  Claim C7. The reset to the last good position, when the last good index is above 0,
  loads the last good position into the chess object, sets the index to the last good
  index and clears the wrong-move flag; when the last good index is 0 it is a full reset
  as by \<open>handleResetBoard\<close>: chess object and board at the initial position, index 0, flag
  cleared.

  Variant A, in every state: with \<open>lastFenIndex\<close> not 0 the handler loads \<open>lastFen\<close>,
  sets the index to \<open>lastFenIndex\<close> and clears the flag, and in every state a run
  reaches the chess object then stands at \<open>lastFen\<close>; with \<open>lastFenIndex\<close> 0 it resets
  chess object and board, sets the index to 0 and clears the flag, which with moves
  loaded and \<open>lastFen\<close> at \<open>"start"\<close> is the state of \<open>handleResetBoard\<close> but for the
  feedback.

  Variant B keeps no last good index of its own: it writes \<open>lastFen\<close> whenever it
  writes \<open>currentIndex\<close>, so the index that belongs to \<open>lastFen\<close> is \<open>currentIndex\<close>.
  Its button is rendered only while \<open>currentIndex\<close> is above 0, and the button is the
  only caller of the handler. In every state a run reaches with the index above 0, the
  handler loads \<open>lastFen\<close>, the chess object then stands at \<open>lastFen\<close>, the index
  stays and the flag is cleared.
\<close>

theorem reset_to_last_position:
  assumes "fen_closed R"
    and "run (step_A R x) es mounted_A = Some a"
    and "run (step_B R y) es' mounted_B = Some b"
    and "0 < currentIndex (ui b)"
  shows "(lastFenIndex s \<noteq> 0 \<longrightarrow>
      game (handleResetToLastPosition_A R s) = load R (game s) (lastFen s)
      \<and> boardPosition (handleResetToLastPosition_A R s) = lastFen s
      \<and> currentIndex (handleResetToLastPosition_A R s) = lastFenIndex s
      \<and> wrongMove (handleResetToLastPosition_A R s) = False)
   \<and> (lastFenIndex (ui a) \<noteq> 0 \<longrightarrow>
      fen (game (handleResetToLastPosition_A R (ui a))) = lastFen (ui a))
   \<and> (lastFenIndex s = 0 \<longrightarrow>
      game (handleResetToLastPosition_A R s) = new_Chess
      \<and> boardPosition (handleResetToLastPosition_A R s) = ''start''
      \<and> currentIndex (handleResetToLastPosition_A R s) = 0
      \<and> wrongMove (handleResetToLastPosition_A R s) = False)
   \<and> (lastFenIndex s = 0 \<and> lastFen s = ''start'' \<and> currentMoves s \<noteq> [] \<longrightarrow>
      handleResetToLastPosition_A R s
        = (handleResetBoard_A s)\<lparr>feedback := ''No correct move to reset to. Board reset to start.''\<rparr>)
   \<and> game (handleResetToLastPosition_B R (ui b)) = load R (game (ui b)) (lastFen (ui b))
   \<and> fen (game (handleResetToLastPosition_B R (ui b))) = lastFen (ui b)
   \<and> boardPosition (handleResetToLastPosition_B R (ui b)) = lastFen (ui b)
   \<and> currentIndex (handleResetToLastPosition_B R (ui b)) = currentIndex (ui b)
   \<and> wrongMove (handleResetToLastPosition_B R (ui b)) = False"
proof -
  have handler: "(lastFenIndex s \<noteq> 0 \<longrightarrow>
      game (handleResetToLastPosition_A R s) = load R (game s) (lastFen s)
      \<and> boardPosition (handleResetToLastPosition_A R s) = lastFen s
      \<and> currentIndex (handleResetToLastPosition_A R s) = lastFenIndex s
      \<and> wrongMove (handleResetToLastPosition_A R s) = False)
   \<and> (lastFenIndex s = 0 \<longrightarrow>
      game (handleResetToLastPosition_A R s) = new_Chess
      \<and> boardPosition (handleResetToLastPosition_A R s) = ''start''
      \<and> currentIndex (handleResetToLastPosition_A R s) = 0
      \<and> wrongMove (handleResetToLastPosition_A R s) = False)
   \<and> (lastFenIndex s = 0 \<and> lastFen s = ''start'' \<and> currentMoves s \<noteq> [] \<longrightarrow>
      handleResetToLastPosition_A R s
        = (handleResetBoard_A s)\<lparr>feedback := ''No correct move to reset to. Board reset to start.''\<rparr>)"
    by (simp add: handleResetToLastPosition_A_def handleResetBoard_A_def reset_def new_Chess_def)
  from assms(1,2) have "restorable_A R (ui a)" by (rule run_A_restorable)
  then have reachA: "lastFenIndex (ui a) \<noteq> 0 \<longrightarrow>
      fen (game (handleResetToLastPosition_A R (ui a))) = lastFen (ui a)"
    by (simp add: restorable_A_def handleResetToLastPosition_A_def fen_load)
  from assms(1,3) have "restorable_B R (ui b)" by (rule run_B_restorable)
  with assms(4) have v: "valid_fen R (lastFen (ui b))"
    by (simp add: restorable_B_def)
  have reachB: "game (handleResetToLastPosition_B R (ui b)) = load R (game (ui b)) (lastFen (ui b))
   \<and> fen (game (handleResetToLastPosition_B R (ui b))) = lastFen (ui b)
   \<and> boardPosition (handleResetToLastPosition_B R (ui b)) = lastFen (ui b)
   \<and> currentIndex (handleResetToLastPosition_B R (ui b)) = currentIndex (ui b)
   \<and> wrongMove (handleResetToLastPosition_B R (ui b)) = False"
    using v by (simp add: handleResetToLastPosition_B_def fen_load)
  from handler reachA reachB show ?thesis by blast
qed

theorem reset_to_last_position_witness:
  "fen_closed first_moves
   \<and> map_option (lastFenIndex \<circ> ui)
       (run (step_A first_moves True)
          [Start ''2'' ''Open Game'', Fetched (Body (MoveArray [''e4'', ''e5''])),
           Drop ''e2'' ''e4'', Drop ''c7'' ''c5''] mounted_A) = Some 1
   \<and> map_option (fen \<circ> game \<circ> handleResetToLastPosition_A first_moves \<circ> ui)
       (run (step_A first_moves True)
          [Start ''2'' ''Open Game'', Fetched (Body (MoveArray [''e4'', ''e5''])),
           Drop ''e2'' ''e4'', Drop ''c7'' ''c5''] mounted_A) = Some fen_e4
   \<and> map_option (currentIndex \<circ> handleResetToLastPosition_A first_moves \<circ> ui)
       (run (step_A first_moves True)
          [Start ''2'' ''Open Game'', Fetched (Body (MoveArray [''e4'', ''e5''])),
           Drop ''e2'' ''e4'', Drop ''c7'' ''c5''] mounted_A) = Some 1
   \<and> lastFenIndex (snd (handlePieceDrop_A first_moves ''d2'' ''d4'' practising_A)) = 0
   \<and> lastFen (snd (handlePieceDrop_A first_moves ''d2'' ''d4'' practising_A)) = ''start''
   \<and> currentMoves (snd (handlePieceDrop_A first_moves ''d2'' ''d4'' practising_A)) \<noteq> []
   \<and> game (handleResetToLastPosition_A first_moves
         (snd (handlePieceDrop_A first_moves ''d2'' ''d4'' practising_A))) = new_Chess
   \<and> map_option (currentIndex \<circ> ui)
       (run (step_B first_moves True)
          [Start ''2'' ''Open Game'', Fetched (Body (MoveArray [''e4'', ''e5''])),
           Next, Drop ''c7'' ''c5''] mounted_B) = Some 1
   \<and> map_option (fen \<circ> game \<circ> ui)
       (run (step_B first_moves True)
          [Start ''2'' ''Open Game'', Fetched (Body (MoveArray [''e4'', ''e5''])),
           Next, Drop ''c7'' ''c5''] mounted_B) = Some fen_e4_c5
   \<and> map_option (fen \<circ> game \<circ> handleResetToLastPosition_B first_moves \<circ> ui)
       (run (step_B first_moves True)
          [Start ''2'' ''Open Game'', Fetched (Body (MoveArray [''e4'', ''e5''])),
           Next, Drop ''c7'' ''c5''] mounted_B) = Some fen_e4
   \<and> map_option (wrongMove \<circ> handleResetToLastPosition_B first_moves \<circ> ui)
       (run (step_B first_moves True)
          [Start ''2'' ''Open Game'', Fetched (Body (MoveArray [''e4'', ''e5''])),
           Next, Drop ''c7'' ''c5''] mounted_B) = Some False"
proof -
  obtain a where a: "run (step_A first_moves True)
          [Start ''2'' ''Open Game'', Fetched (Body (MoveArray [''e4'', ''e5''])),
           Drop ''e2'' ''e4'', Drop ''c7'' ''c5''] mounted_A = Some a"
    and a1: "lastFenIndex (ui a) = 1" and a2: "lastFen (ui a) = fen_e4"
    by (simp add: handlers_A chess_defs js_defs initial_A_def mounted_A_def may_start_def Let_def)
  obtain b where b: "run (step_B first_moves True)
          [Start ''2'' ''Open Game'', Fetched (Body (MoveArray [''e4'', ''e5''])),
           Next, Drop ''c7'' ''c5''] mounted_B = Some b"
    and b1: "currentIndex (ui b) = 1" and b2: "lastFen (ui b) = fen_e4"
    and b3: "fen (game (ui b)) = fen_e4_c5"
    by (simp add: handlers_B chess_defs js_defs initial_B_def mounted_B_def may_start_def
        may_drop_def render_B_def effect_B_def Let_def)
  from b1 have pos: "0 < currentIndex (ui b)" by simp
  have s1: "lastFenIndex (snd (handlePieceDrop_A first_moves ''d2'' ''d4'' practising_A)) = 0"
    and s2: "lastFen (snd (handlePieceDrop_A first_moves ''d2'' ''d4'' practising_A)) = ''start''"
    and s3: "currentMoves (snd (handlePieceDrop_A first_moves ''d2'' ''d4'' practising_A)) \<noteq> []"
    by (simp_all add: states handlers_A chess_defs js_defs Let_def)
  note at_wrong = reset_to_last_position [OF first_moves_closed a b pos,
      where s = "snd (handlePieceDrop_A first_moves ''d2'' ''d4'' practising_A)"]
  from a1 have nz: "lastFenIndex (ui a) \<noteq> 0" by simp
  from at_wrong nz have "fen (game (handleResetToLastPosition_A first_moves (ui a))) = lastFen (ui a)"
    by blast
  with a2 have A: "fen (game (handleResetToLastPosition_A first_moves (ui a))) = fen_e4"
    by simp
  from reset_to_last_position [OF first_moves_closed a b pos, where s = "ui a"] nz
  have "currentIndex (handleResetToLastPosition_A first_moves (ui a)) = lastFenIndex (ui a)"
    by blast
  with a1 have A': "currentIndex (handleResetToLastPosition_A first_moves (ui a)) = 1"
    by simp
  from at_wrong s1 have S: "game (handleResetToLastPosition_A first_moves
         (snd (handlePieceDrop_A first_moves ''d2'' ''d4'' practising_A))) = new_Chess"
    by blast
  from at_wrong have "fen (game (handleResetToLastPosition_B first_moves (ui b))) = lastFen (ui b)"
    and B': "wrongMove (handleResetToLastPosition_B first_moves (ui b)) = False"
    by blast+
  with b2 have B: "fen (game (handleResetToLastPosition_B first_moves (ui b))) = fen_e4"
    by simp
  show ?thesis
    unfolding a b using first_moves_closed a1 A A' s1 s2 s3 S b1 b3 B B' by simp
qed

end
